theory Spec2Isabelle
  imports Complex_Main "HOL-Library.Product_Lexorder" "HOL-Library.AList"
begin

section \<open>Clean Spark Spread dashboard (css\_calculator.py)\<close>

text \<open>
  The script loads a table of prices indexed by timestamp, filters it to a range of
  calendar dates, adds a column \<open>CSS\<close> computed from three of its columns and three
  plant parameters, and displays two rounded means of that column.

  Numbers: the cells of the table and the parameters are float64 in the program. A cell
  is modelled as a real number or pandas' missing value NaN. The column arithmetic of the
  CSS is given twice: over the reals (\<open>calc_css\<close>, each operation exact), and with
  every operation rounded to float64 (\<open>calc_css64\<close>) for what depends on the rounding.
  The two means and their rounding to 2 decimals are in float64.
\<close>

subsection \<open>Data model\<close>

text \<open>A cell of a numeric column: a number, or pandas' missing value.\<close>

datatype cell = Num real | NaN

text \<open>The exceptions the script can raise.\<close>

datatype error = KeyError string | ZeroDivisionError | ValueError | StreamlitAPIException

text \<open>
  A Python \<open>datetime.date\<close> is (year, month, day) and a \<open>datetime.time\<close> is
  (hour, minute, second, microsecond); both compare componentwise from the left, which
  is the lexicographic order on tuples.
\<close>

type_synonym date = "nat \<times> nat \<times> nat"
type_synonym time = "nat \<times> nat \<times> nat \<times> nat"

text \<open>
  An entry of the \<open>Datetime\<close> index, by its calendar and clock fields (no time zone:
  the column is parsed as it is written).
\<close>

datatype timestamp =
  Timestamp (year: nat) (month: nat) (day: nat)
            (hour: nat) (minute: nat) (second: nat) (microsecond: nat)

text \<open>\<open>df.index.date\<close>, for one entry.\<close>

definition date_of :: "timestamp \<Rightarrow> date" where
  "date_of t = (year t, month t, day t)"

text \<open>
  A DataFrame: the index and the named columns in their order. In pandas every column
  has as many cells as the index has entries (\<open>wf_df\<close>).
\<close>

record dataframe =
  index :: "timestamp list"
  columns :: "(string \<times> cell list) list"

definition wf_df :: "dataframe \<Rightarrow> bool" where
  "wf_df d = list_all (\<lambda>(n, c). length c = length (index d)) (columns d)"

text \<open>\<open>df[name]\<close>: the column, or KeyError.\<close>

definition getitem :: "dataframe \<Rightarrow> string \<Rightarrow> error + cell list" where
  "getitem d name =
     (case map_of (columns d) name of None \<Rightarrow> Inl (KeyError name) | Some c \<Rightarrow> Inr c)"

text \<open>\<open>df[name] = values\<close>: replaces the column where it is, or appends it.\<close>

definition setitem :: "dataframe \<Rightarrow> string \<Rightarrow> cell list \<Rightarrow> dataframe" where
  "setitem d name vs = d\<lparr>columns := AList.update name vs (columns d)\<rparr>"

subsection \<open>Float64 rounding\<close>

text \<open>Rounding to the nearest integer, a tie to the even one.\<close>

definition rint :: "real \<Rightarrow> int" where
  "rint x =
     (let f = \<lfloor>x\<rfloor>; r = x - of_int f
      in if r < 1 / 2 then f else if 1 / 2 < r then f + 1 else if even f then f else f + 1)"

text \<open>
  The result of a float64 operation: the exact result rounded to 53 significant bits, a tie
  to the even significand. With \<open>e\<close> the binary exponent of \<open>x\<close>, the float64
  values around \<open>x\<close> are the whole multiples of \<open>2 ^ (e - 52)\<close>. The exponent range
  of float64 (overflow to infinity, subnormal numbers) is not modelled.
\<close>

definition f64 :: "real \<Rightarrow> real" where
  "f64 x =
     (if x = 0 then 0
      else let u = 2 powr of_int (\<lfloor>log 2 \<bar>x\<bar>\<rfloor> - 52)
           in of_int (rint (x / u)) * u)"

subsection \<open>Column arithmetic\<close>

text \<open>
  Arithmetic on float64 cells: NaN in, NaN out. Two columns of the same frame have the
  same index, so pandas combines them position by position.
\<close>

fun cell_sub :: "cell \<Rightarrow> cell \<Rightarrow> cell" where
  "cell_sub (Num a) (Num b) = Num (a - b)"
| "cell_sub _ _ = NaN"

fun cell_map :: "(real \<Rightarrow> real) \<Rightarrow> cell \<Rightarrow> cell" where
  "cell_map f (Num a) = Num (f a)"
| "cell_map f NaN = NaN"

definition series_sub :: "cell list \<Rightarrow> cell list \<Rightarrow> cell list" where
  "series_sub xs ys = map (\<lambda>(x, y). cell_sub x y) (zip xs ys)"

definition series_div_scalar :: "cell list \<Rightarrow> real \<Rightarrow> cell list" where
  "series_div_scalar xs k = map (cell_map (\<lambda>x. x / k)) xs"

definition series_mul_scalar :: "cell list \<Rightarrow> real \<Rightarrow> cell list" where
  "series_mul_scalar xs k = map (cell_map (\<lambda>x. x * k)) xs"

definition series_sub_scalar :: "cell list \<Rightarrow> real \<Rightarrow> cell list" where
  "series_sub_scalar xs k = map (cell_map (\<lambda>x. x - k)) xs"

text \<open>Python's \<open>a / b\<close> on two floats raises ZeroDivisionError when \<open>b\<close> is zero.\<close>

definition float_div :: "real \<Rightarrow> real \<Rightarrow> error + real" where
  "float_div a b = (if b = 0 then Inl ZeroDivisionError else Inr (a / b))"

subsection \<open>The Clean Spark Spread (lines 45 to 50)\<close>

text \<open>
  \<^verbatim>\<open>df_filtered[country] - df_filtered[gas_index] / efficiency
    - df_filtered["EUA Prices"] * (emission_factor_th / efficiency) - variable_cost\<close>
  Python evaluates from the left: the three column lookups can raise KeyError in this
  order, then the division of the two scalars raises ZeroDivisionError when the
  efficiency is zero. (A column divided by the scalar zero does not raise, but the
  expression never gets past the scalar division then.)
\<close>

definition calc_css ::
  "dataframe \<Rightarrow> string \<Rightarrow> string \<Rightarrow> real \<Rightarrow> real \<Rightarrow> real \<Rightarrow> error + cell list" where
  "calc_css d country gas_index efficiency emission_factor_th variable_cost =
     (case getitem d country of Inl e \<Rightarrow> Inl e | Inr market \<Rightarrow>
      case getitem d gas_index of Inl e \<Rightarrow> Inl e | Inr gas \<Rightarrow>
      case getitem d ''EUA Prices'' of Inl e \<Rightarrow> Inl e | Inr eua \<Rightarrow>
      case float_div emission_factor_th efficiency of Inl e \<Rightarrow> Inl e | Inr k \<Rightarrow>
        Inr (series_sub_scalar
               (series_sub (series_sub market (series_div_scalar gas efficiency))
                           (series_mul_scalar eua k))
               variable_cost))"

subsection \<open>The Clean Spark Spread in float64\<close>

text \<open>
  Lines 45 to 50 again, as NumPy and Python compute them: the result of every operation
  is rounded to float64. The lookups and the errors are those of \<open>calc_css\<close>.
\<close>

fun cell_sub64 :: "cell \<Rightarrow> cell \<Rightarrow> cell" where
  "cell_sub64 (Num a) (Num b) = Num (f64 (a - b))"
| "cell_sub64 _ _ = NaN"

definition series_sub64 :: "cell list \<Rightarrow> cell list \<Rightarrow> cell list" where
  "series_sub64 xs ys = map (\<lambda>(x, y). cell_sub64 x y) (zip xs ys)"

definition series_div_scalar64 :: "cell list \<Rightarrow> real \<Rightarrow> cell list" where
  "series_div_scalar64 xs k = map (cell_map (\<lambda>x. f64 (x / k))) xs"

definition series_mul_scalar64 :: "cell list \<Rightarrow> real \<Rightarrow> cell list" where
  "series_mul_scalar64 xs k = map (cell_map (\<lambda>x. f64 (x * k))) xs"

definition series_sub_scalar64 :: "cell list \<Rightarrow> real \<Rightarrow> cell list" where
  "series_sub_scalar64 xs k = map (cell_map (\<lambda>x. f64 (x - k))) xs"

definition float_div64 :: "real \<Rightarrow> real \<Rightarrow> error + real" where
  "float_div64 a b = (if b = 0 then Inl ZeroDivisionError else Inr (f64 (a / b)))"

definition calc_css64 ::
  "dataframe \<Rightarrow> string \<Rightarrow> string \<Rightarrow> real \<Rightarrow> real \<Rightarrow> real \<Rightarrow> error + cell list" where
  "calc_css64 d country gas_index efficiency emission_factor_th variable_cost =
     (case getitem d country of Inl e \<Rightarrow> Inl e | Inr market \<Rightarrow>
      case getitem d gas_index of Inl e \<Rightarrow> Inl e | Inr gas \<Rightarrow>
      case getitem d ''EUA Prices'' of Inl e \<Rightarrow> Inl e | Inr eua \<Rightarrow>
      case float_div64 emission_factor_th efficiency of Inl e \<Rightarrow> Inl e | Inr k \<Rightarrow>
        Inr (series_sub_scalar64
               (series_sub64 (series_sub64 market (series_div_scalar64 gas efficiency))
                             (series_mul_scalar64 eua k))
               variable_cost))"

subsection \<open>Date selection and date filter (lines 30 to 41)\<close>

text \<open>\<open>df.index.date\<close>: the calendar date of every index entry.\<close>

definition dates :: "dataframe \<Rightarrow> date list" where
  "dates d = map date_of (index d)"

text \<open>
  Python's \<open>min\<close> and \<open>max\<close> of a sequence: ValueError when it is empty, otherwise
  one pass that keeps the smallest (largest) element seen.
\<close>

definition py_min :: "'a::linorder list \<Rightarrow> error + 'a" where
  "py_min xs = (case xs of [] \<Rightarrow> Inl ValueError | x # ys \<Rightarrow> Inr (fold min ys x))"

definition py_max :: "'a::linorder list \<Rightarrow> error + 'a" where
  "py_max xs = (case xs of [] \<Rightarrow> Inl ValueError | x # ys \<Rightarrow> Inr (fold max ys x))"

text \<open>\<open>pd.to_datetime("2025-04-01").date()\<close>\<close>

definition floor_date :: date where
  "floor_date = (2025, 4, 1)"

text \<open>\<open>min_date = max(min(dates), pd.to_datetime("2025-04-01").date())\<close>\<close>

definition min_date :: "dataframe \<Rightarrow> error + date" where
  "min_date d = (case py_min (dates d) of Inl e \<Rightarrow> Inl e | Inr m \<Rightarrow> Inr (max m floor_date))"

text \<open>\<open>max_date = max(dates)\<close>\<close>

definition max_date :: "dataframe \<Rightarrow> error + date" where
  "max_date d = py_max (dates d)"

text \<open>
  \<open>st.sidebar.date_input(label, value, min_value, max_value)\<close> returns the tuple of
  dates the user has picked, and \<open>value\<close> while nothing has been picked. Streamlit
  raises StreamlitAPIException when \<open>min_value\<close> is after \<open>max_value\<close> and when
  \<open>value\<close> starts before \<open>min_value\<close> or ends after \<open>max_value\<close>. The calendar
  offers no date outside the two bounds: a pick outside them is refused, and the run ends
  with the same exception in the model.
\<close>

definition date_input ::
  "date list \<Rightarrow> date \<Rightarrow> date \<Rightarrow> date list option \<Rightarrow> error + date list" where
  "date_input initial min_value max_value picked =
     (if max_value < min_value then Inl StreamlitAPIException
      else if initial \<noteq> [] \<and> (hd initial < min_value \<or> max_value < last initial)
      then Inl StreamlitAPIException
      else case picked of
             None \<Rightarrow> Inr initial
           | Some ds \<Rightarrow>
               if list_all (\<lambda>x. min_value \<le> x \<and> x \<le> max_value) ds then Inr ds
               else Inl StreamlitAPIException)"

text \<open>\<open>start_date, end_date = ...\<close>: unpacking raises ValueError unless there are two.\<close>

definition unpack2 :: "'a list \<Rightarrow> error + 'a \<times> 'a" where
  "unpack2 xs = (case xs of [a, b] \<Rightarrow> Inr (a, b) | _ \<Rightarrow> Inl ValueError)"

text \<open>\<open>mask = (df.index.date >= start_date) & (df.index.date <= end_date)\<close>\<close>

definition date_mask :: "dataframe \<Rightarrow> date \<Rightarrow> date \<Rightarrow> bool list" where
  "date_mask d start_date end_date =
     map (\<lambda>(a, b). a \<and> b)
       (zip (map (\<lambda>x. x \<ge> start_date) (dates d)) (map (\<lambda>x. x \<le> end_date) (dates d)))"

text \<open>The entries of a list at the positions where the mask is true.\<close>

fun select :: "bool list \<Rightarrow> 'a list \<Rightarrow> 'a list" where
  "select (b # bs) (x # xs) = (if b then x # select bs xs else select bs xs)"
| "select _ _ = []"

text \<open>
  \<open>df[mask]\<close> with a boolean mask: a new frame with the rows where the mask is true;
  pandas raises ValueError for a mask of the wrong length.
\<close>

definition getitem_mask :: "dataframe \<Rightarrow> bool list \<Rightarrow> error + dataframe" where
  "getitem_mask d msk =
     (if length msk \<noteq> length (index d) then Inl ValueError
      else Inr \<lparr>index = select msk (index d),
                columns = map (\<lambda>(n, c). (n, select msk c)) (columns d)\<rparr>)"

text \<open>Lines 39 and 40 on a frame value: \<open>df[mask]\<close> for the date mask.\<close>

definition date_filter :: "dataframe \<Rightarrow> date \<Rightarrow> date \<Rightarrow> error + dataframe" where
  "date_filter d start_date end_date = getitem_mask d (date_mask d start_date end_date)"

text \<open>\<open>pd.to_datetime\<close> of an index that holds timestamps already gives it back.\<close>

definition to_datetime :: "timestamp list \<Rightarrow> timestamp list" where
  "to_datetime ix = ix"

subsection \<open>Aggregates (lines 110 to 115)\<close>

text \<open>The cells of a column that hold a number, in their order.\<close>

fun numbers :: "cell list \<Rightarrow> real list" where
  "numbers [] = []"
| "numbers (Num a # xs) = a # numbers xs"
| "numbers (NaN # xs) = numbers xs"


definition series_mean :: "(real list \<Rightarrow> real) \<Rightarrow> cell list \<Rightarrow> cell" where
  "series_mean sum64 xs =
     (let vs = numbers xs
      in if length vs > 0 then Num (f64 (sum64 vs / real (length vs))) else NaN)"

text \<open>The sum from the left, starting at 0: the order of bottleneck and of Python.\<close>

definition sum_left :: "real list \<Rightarrow> real" where
  "sum_left vs = foldl (\<lambda>a x. f64 (a + x)) 0 vs"

text \<open>
  \<open>round(x, ndigits)\<close> on a float64 scalar of NumPy: the float64 product with
  \<open>10 ** ndigits\<close>, rounded to the nearest integer (ties to even), and the float64
  quotient by \<open>10 ** ndigits\<close>; NaN stays NaN.
\<close>

definition py_round :: "cell \<Rightarrow> nat \<Rightarrow> cell" where
  "py_round c ndigits =
     (case c of NaN \<Rightarrow> NaN
      | Num x \<Rightarrow> Num (f64 (of_int (rint (f64 (x * 10 ^ ndigits))) / 10 ^ ndigits)))"

text \<open>
  The clock time of an index entry and of a \<open>datetime.time\<close>, in microseconds since
  midnight, as pandas compares them in \<open>between_time\<close>.
\<close>

definition get_time_micros :: "timestamp \<Rightarrow> nat" where
  "get_time_micros t =
     ((hour t * 60 + minute t) * 60 + second t) * 1000000 + microsecond t"

fun time_to_micros :: "time \<Rightarrow> nat" where
  "time_to_micros (h, m, s, us) = ((h * 60 + m) * 60 + s) * 1000000 + us"

text \<open>
  \<open>df.between_time(start_time, end_time)\<close>, both ends included (the default): a new
  frame with the rows whose clock time is in the window. pandas joins the two
  comparisons with "and" when \<open>start_time <= end_time\<close> and with "or" otherwise (a
  window over midnight).
\<close>

definition between_time_mask :: "dataframe \<Rightarrow> time \<Rightarrow> time \<Rightarrow> bool list" where
  "between_time_mask d start_time end_time =
     map (\<lambda>t. if start_time \<le> end_time
               then time_to_micros start_time \<le> get_time_micros t
                    \<and> get_time_micros t \<le> time_to_micros end_time
               else time_to_micros start_time \<le> get_time_micros t
                    \<or> get_time_micros t \<le> time_to_micros end_time)
         (index d)"

definition between_time :: "dataframe \<Rightarrow> time \<Rightarrow> time \<Rightarrow> dataframe" where
  "between_time d start_time end_time =
     (let msk = between_time_mask d start_time end_time
      in \<lparr>index = select msk (index d),
          columns = map (\<lambda>(n, c). (n, select msk c)) (columns d)\<rparr>)"

text \<open>\<open>"08:00"\<close> and \<open>"20:00"\<close> as \<open>datetime.time\<close> values.\<close>

definition peak_start :: time where
  "peak_start = (8, 0, 0, 0)"

definition peak_end :: time where
  "peak_end = (20, 0, 0, 0)"

text \<open>\<open>round(frame["CSS"].mean(), 2)\<close>\<close>

definition rounded_mean_css :: "(real list \<Rightarrow> real) \<Rightarrow> dataframe \<Rightarrow> error + cell" where
  "rounded_mean_css sum64 d =
     (case getitem d ''CSS'' of
        Inl e \<Rightarrow> Inl e
      | Inr css \<Rightarrow> Inr (py_round (series_mean sum64 css) 2))"

text \<open>
  What an f-string shows for a float64 scalar: the text \<open>nan\<close> for NaN, and the digits
  of the number otherwise (the digits themselves are not modelled).
\<close>

datatype shown = Shown_number real | Shown_text string

definition fstring :: "cell \<Rightarrow> shown" where
  "fstring c = (case c of NaN \<Rightarrow> Shown_text ''nan'' | Num x \<Rightarrow> Shown_number x)"

subsection \<open>The script on a store of frames\<close>

text \<open>
  The frames live in a store; a variable of the script holds a reference into it.
  \<open>df[mask]\<close>, \<open>.copy()\<close> and \<open>between_time\<close> make a new frame, whereas
  \<open>frame.index = ...\<close> and \<open>frame["CSS"] = ...\<close> change the frame they are applied
  to. A run that raises keeps the store as it is at that point.
\<close>

type_synonym ref = nat
type_synonym store = "dataframe list"

definition alloc :: "store \<Rightarrow> dataframe \<Rightarrow> ref \<times> store" where
  "alloc s v = (length s, s @ [v])"

text \<open>
  The sidebar widgets (lines 16 to 36). A widget returns what the user has set, and its
  initial value before that. A selectbox returns one of its options, the first one
  initially. A slider raises StreamlitAPIException when its initial value is not from
  \<open>min_value\<close> to \<open>max_value\<close>, and it offers no position outside them: a state
  outside is refused, and the run ends with the same exception in the model. A number
  input without bounds returns any number.
\<close>

definition selectbox :: "'a list \<Rightarrow> nat option \<Rightarrow> error + 'a" where
  "selectbox opts picked =
     (let i = (case picked of None \<Rightarrow> 0 | Some j \<Rightarrow> j)
      in if i < length opts then Inr (opts ! i) else Inl StreamlitAPIException)"

definition slider :: "'a::linorder \<Rightarrow> 'a \<Rightarrow> 'a \<Rightarrow> 'a option \<Rightarrow> error + 'a" where
  "slider min_value max_value initial picked =
     (if initial < min_value \<or> max_value < initial then Inl StreamlitAPIException
      else case picked of
             None \<Rightarrow> Inr initial
           | Some v \<Rightarrow>
               if min_value \<le> v \<and> v \<le> max_value then Inr v else Inl StreamlitAPIException)"

definition number_input :: "real \<Rightarrow> real option \<Rightarrow> real" where
  "number_input initial picked = (case picked of None \<Rightarrow> initial | Some v \<Rightarrow> v)"

text \<open>What the user has set: the position picked in each widget, if any.\<close>

record widgets =
  w_country :: "nat option"
  w_gas_index :: "nat option"
  w_efficiency :: "int option"
  w_emission_factor :: "real option"
  w_variable_cost :: "real option"
  w_dates :: "date list option"

text \<open>\<open>country = st.sidebar.selectbox("Select Power Market (Country)", ["FR", "BE"])\<close>\<close>

definition selected_country :: "widgets \<Rightarrow> error + string" where
  "selected_country w = selectbox [''FR'', ''BE''] (w_country w)"

text \<open>\<open>gas_index = st.sidebar.selectbox("Select Gas Index", [...])\<close>\<close>

definition selected_gas_index :: "widgets \<Rightarrow> error + string" where
  "selected_gas_index w =
     selectbox [''PEG'', ''TTF'', ''THE'', ''CEGH VTP'', ''CZ VTP'', ''ETF'', ''NBP'', ''PVB'',
                ''ZTP''] (w_gas_index w)"

text \<open>\<open>efficiency = st.sidebar.slider("Efficiency (%)", 30, 65, 50) / 100\<close>\<close>

definition efficiency :: "widgets \<Rightarrow> error + real" where
  "efficiency w =
     (case slider 30 65 50 (w_efficiency w) of
        Inl e \<Rightarrow> Inl e
      | Inr percent \<Rightarrow> Inr (of_int percent / 100))"

text \<open>\<open>emission_factor_th = st.sidebar.slider("Emission Factor", 0.050, 0.250, 0.090)\<close>\<close>

definition emission_factor_th :: "widgets \<Rightarrow> error + real" where
  "emission_factor_th w = slider 0.050 0.250 0.090 (w_emission_factor w)"

text \<open>\<open>variable_cost = st.sidebar.number_input("Variable Cost", value=2.0)\<close>\<close>

definition variable_cost :: "widgets \<Rightarrow> real" where
  "variable_cost w = number_input 2.0 (w_variable_cost w)"

text \<open>Lines 16 to 27: the five parameters, read in this order.\<close>

record parameters =
  p_country :: string
  p_gas_index :: string
  p_efficiency :: real
  p_emission_factor_th :: real
  p_variable_cost :: real

definition read_parameters :: "widgets \<Rightarrow> error + parameters" where
  "read_parameters w =
     (case selected_country w of Inl e \<Rightarrow> Inl e | Inr c \<Rightarrow>
      case selected_gas_index w of Inl e \<Rightarrow> Inl e | Inr g \<Rightarrow>
      case efficiency w of Inl e \<Rightarrow> Inl e | Inr eff \<Rightarrow>
      case emission_factor_th w of Inl e \<Rightarrow> Inl e | Inr ef \<Rightarrow>
        Inr \<lparr>p_country = c, p_gas_index = g, p_efficiency = eff,
             p_emission_factor_th = ef, p_variable_cost = variable_cost w\<rparr>)"

text \<open>
  Lines 30 to 36: the date bounds and the selected range,
  \<open>st.sidebar.date_input("Select Date Range", [min_date, max_date], min_value=min_date,
  max_value=max_date)\<close>.
\<close>

definition select_dates :: "dataframe \<Rightarrow> date list option \<Rightarrow> error + date \<times> date" where
  "select_dates d picked =
     (case min_date d of Inl e \<Rightarrow> Inl e | Inr mn \<Rightarrow>
      case max_date d of Inl e \<Rightarrow> Inl e | Inr mx \<Rightarrow>
      case date_input [mn, mx] mn mx picked of Inl e \<Rightarrow> Inl e | Inr ds \<Rightarrow>
        unpack2 ds)"

text \<open>
  Lines 39 to 41: \<open>df_filtered = df[mask].copy()\<close>, then the index of the copy is set
  again.
\<close>

definition filter_step :: "store \<Rightarrow> ref \<Rightarrow> date \<Rightarrow> date \<Rightarrow> store \<times> (error + ref)" where
  "filter_step s df start_date end_date =
     (case date_filter (s ! df) start_date end_date of
        Inl e \<Rightarrow> (s, Inl e)
      | Inr sel \<Rightarrow>
          let (tmp, s1) = alloc s sel;
              (df_filtered, s2) = alloc s1 (s1 ! tmp);
              s3 = s2[df_filtered :=
                        (s2 ! df_filtered)\<lparr>index := to_datetime (index (s2 ! df_filtered))\<rparr>]
          in (s3, Inr df_filtered))"

text \<open>Lines 45 to 50: \<open>df_filtered["CSS"] = ...\<close>\<close>

definition css_step :: "store \<Rightarrow> ref \<Rightarrow> parameters \<Rightarrow> store \<times> (error + unit)" where
  "css_step s df_filtered p =
     (case calc_css (s ! df_filtered) (p_country p) (p_gas_index p)
             (p_efficiency p) (p_emission_factor_th p) (p_variable_cost p) of
        Inl e \<Rightarrow> (s, Inl e)
      | Inr css \<Rightarrow> (s[df_filtered := setitem (s ! df_filtered) ''CSS'' css], Inr ()))"

text \<open>
  Lines 110 to 131: the peak series of line 111, then the two rounded means and their
  text on the page (average first, peak second).
\<close>

definition metrics_step ::
  "(real list \<Rightarrow> real) \<Rightarrow> store \<Rightarrow> ref \<Rightarrow> store \<times> (error + shown \<times> shown)" where
  "metrics_step sum64 s df_filtered =
     (let (peak1, s1) = alloc s (between_time (s ! df_filtered) peak_start peak_end)
      in case getitem (s1 ! peak1) ''CSS'' of
           Inl e \<Rightarrow> (s1, Inl e)
         | Inr _ \<Rightarrow>
      case rounded_mean_css sum64 (s1 ! df_filtered) of
           Inl e \<Rightarrow> (s1, Inl e)
         | Inr avg_css \<Rightarrow>
      let (peak2, s2) = alloc s1 (between_time (s1 ! df_filtered) peak_start peak_end)
      in case rounded_mean_css sum64 (s2 ! peak2) of
           Inl e \<Rightarrow> (s2, Inl e)
         | Inr peak_css \<Rightarrow> (s2, Inr (fstring avg_css, fstring peak_css)))"

text \<open>
  One run of the script on the loaded frame \<open>df\<close>, with the float64 sum \<open>sum64\<close> of
  the installed backend. The chart (lines 61 to 108) and the table (line 135) read
  \<open>df_filtered\<close> and change nothing; they are left out.
\<close>

record page =
  shown_avg_css :: shown
  shown_peak_css :: shown
  df_filtered_ref :: ref

definition script ::
  "(real list \<Rightarrow> real) \<Rightarrow> store \<Rightarrow> ref \<Rightarrow> widgets \<Rightarrow> store \<times> (error + page)" where
  "script sum64 s df w =
     (case read_parameters w of
        Inl e \<Rightarrow> (s, Inl e)
      | Inr p \<Rightarrow>
      case select_dates (s ! df) (w_dates w) of
        Inl e \<Rightarrow> (s, Inl e)
      | Inr (start_date, end_date) \<Rightarrow>
      case filter_step s df start_date end_date of
        (s1, Inl e) \<Rightarrow> (s1, Inl e)
      | (s1, Inr df_filtered) \<Rightarrow>
      case css_step s1 df_filtered p of
        (s2, Inl e) \<Rightarrow> (s2, Inl e)
      | (s2, Inr _) \<Rightarrow>
      case metrics_step sum64 s2 df_filtered of
        (s3, Inl e) \<Rightarrow> (s3, Inl e)
      | (s3, Inr (avg, peak)) \<Rightarrow>
          (s3, Inr \<lparr>shown_avg_css = avg, shown_peak_css = peak,
                     df_filtered_ref = df_filtered\<rparr>))"

subsection \<open>The rounded mean, in the words of the specification\<close>


subsection \<open>A small frame to evaluate on\<close>

text \<open>
  Four rows on four days, the first before the floor date and none on 2025-04-03: one
  before the peak window, two on its ends, one a microsecond after it; the gas price of
  the third row is missing. Then the same frame with higher market prices in two rows,
  and a setting of the widgets: market FR (the first option), gas index TTF (the second),
  efficiency 30 percent, the rest as it is initially.
\<close>

definition example_df :: dataframe where
  "example_df =
     \<lparr>index = [Timestamp 2025 3 31 7 0 0 0, Timestamp 2025 4 1 8 0 0 0,
                Timestamp 2025 4 2 20 0 0 0, Timestamp 2025 4 4 20 0 0 1],
      columns = [(''FR'', [Num 100, Num 100, Num 90, Num 80]),
                 (''TTF'', [Num 30, Num 30, NaN, Num 30]),
                 (''EUA Prices'', [Num 80, Num 80, Num 80, Num 80])]\<rparr>"

definition example_df_dearer :: dataframe where
  "example_df_dearer = setitem example_df ''FR'' [Num 100, Num 110, Num 95, Num 80]"

definition example_widgets :: widgets where
  "example_widgets =
     \<lparr>w_country = None, w_gas_index = Some 1, w_efficiency = Some 30,
      w_emission_factor = None, w_variable_cost = None, w_dates = None\<rparr>"

text \<open>
  The first three rows of the frame; the frame with a CSS column; a frame with the columns
  and no row; a frame whose only row is before the floor date; a frame with the one row of
  the scenarios of the specification.
\<close>

definition example_df_filtered :: dataframe where
  "example_df_filtered =
     \<lparr>index = [Timestamp 2025 3 31 7 0 0 0, Timestamp 2025 4 1 8 0 0 0,
                Timestamp 2025 4 2 20 0 0 0],
      columns = [(''FR'', [Num 100, Num 100, Num 90]),
                 (''TTF'', [Num 30, Num 30, NaN]),
                 (''EUA Prices'', [Num 80, Num 80, Num 80])]\<rparr>"


definition example_empty_df :: dataframe where
  "example_empty_df =
     \<lparr>index = [],
      columns = [(''FR'', []), (''TTF'', []), (''EUA Prices'', []), (''CSS'', [])]\<rparr>"

definition example_early_df :: dataframe where
  "example_early_df =
     \<lparr>index = [Timestamp 2025 3 31 7 0 0 0],
      columns = [(''FR'', [Num 100]), (''TTF'', [Num 30]), (''EUA Prices'', [Num 80])]\<rparr>"

definition scenario_df :: dataframe where
  "scenario_df =
     \<lparr>index = [Timestamp 2025 4 1 12 0 0 0],
      columns = [(''FR'', [Num 100]), (''TTF'', [Num 30]), (''EUA Prices'', [Num 80])]\<rparr>"

section \<open>Properties\<close>

subsection \<open>The rounding to float64\<close>

lemma rint_near: "\<bar>of_int (rint x) - x\<bar> \<le> 1 / 2"
  unfolding rint_def Let_def by (auto simp: abs_if) linarith+

lemma rint_tie: "\<bar>of_int (rint x) - x\<bar> = 1 / 2 \<Longrightarrow> even (rint x)"
  unfolding rint_def Let_def by (auto simp: abs_if split: if_splits) linarith+

lemma rint_of_int [simp]: "rint (of_int k) = k"
  by (simp add: rint_def)

lemma rint_unique:
  assumes "\<bar>of_int k - x\<bar> < 1 / 2"
  shows "rint x = k"
proof -
  have "\<bar>of_int (rint x) - of_int k :: real\<bar> < 1"
    using rint_near [of x] assms by linarith
  then have "\<bar>rint x - k\<bar> < 1"
    by (metis of_int_abs of_int_diff of_int_less_1_iff)
  then show ?thesis by simp
qed

lemma rint_mono:
  assumes "x \<le> y"
  shows "rint x \<le> rint y"
proof (rule ccontr)
  assume "\<not> rint x \<le> rint y"
  then have "rint y + 1 \<le> rint x" by simp
  then have "of_int (rint y) + 1 \<le> (of_int (rint x) :: real)"
    by (metis of_int_1 of_int_add of_int_le_iff)
  with rint_near [of x] rint_near [of y] assms
  have "x = y" by linarith
  with \<open>\<not> rint x \<le> rint y\<close> show False by simp
qed

lemma rint_minus: "rint (- x) = - rint x"
proof -
  have flip: "\<bar>of_int (- k) - (- y)\<bar> = \<bar>of_int k - y\<bar>" for k :: int and y :: real
    by (simp add: abs_if)
  show ?thesis
  proof (cases "\<bar>of_int (rint x) - x\<bar> < 1 / 2")
    case True
    then have "\<bar>of_int (- rint x) - (- x)\<bar> < 1 / 2" by (simp only: flip)
    then show ?thesis by (rule rint_unique)
  next
    case False
    with rint_near [of x] have tie: "\<bar>of_int (rint x) - x\<bar> = 1 / 2" by linarith
    then have ev: "even (rint x)" by (rule rint_tie)
    show ?thesis
    proof (cases "\<bar>of_int (rint (- x)) - (- x)\<bar> < 1 / 2")
      case True
      then have "\<bar>of_int (- rint (- x)) - (- (- x))\<bar> < 1 / 2" by (simp only: flip)
      then have "rint (- (- x)) = - rint (- x)" by (rule rint_unique)
      then show ?thesis by simp
    next
      case False
      with rint_near [of "- x"] have tie': "\<bar>of_int (rint (- x)) - (- x)\<bar> = 1 / 2" by linarith
      then have ev': "even (rint (- x))" by (rule rint_tie)
      have "\<bar>of_int (rint (- x)) + of_int (rint x) :: real\<bar> \<le> 1"
        using tie tie' by (auto simp: abs_if split: if_splits)
      then have "\<bar>rint (- x) + rint x\<bar> \<le> 1"
        by (metis of_int_abs of_int_add of_int_le_1_iff)
      moreover have "even (rint (- x) + rint x)" using ev ev' by simp
      ultimately have "rint (- x) + rint x = 0" by presburger
      then show ?thesis by simp
    qed
  qed
qed

text \<open>The binary exponent of a number, and \<open>f64\<close> at a number whose exponent is known.\<close>

lemma expo_eq:
  assumes "x \<noteq> 0" and "2 powr of_int e \<le> \<bar>x\<bar>" and "\<bar>x\<bar> < 2 powr of_int (e + 1)"
  shows "\<lfloor>log 2 \<bar>x\<bar>\<rfloor> = e"
  using assms by (subst floor_log_eq_powr_iff) auto

lemma expo_bounds:
  assumes "x \<noteq> 0"
  shows "2 powr of_int \<lfloor>log 2 \<bar>x\<bar>\<rfloor> \<le> \<bar>x\<bar>" and "\<bar>x\<bar> < 2 powr of_int (\<lfloor>log 2 \<bar>x\<bar>\<rfloor> + 1)"
proof -
  have "\<lfloor>log 2 \<bar>x\<bar>\<rfloor> = \<lfloor>log 2 \<bar>x\<bar>\<rfloor>" ..
  then have "2 powr of_int \<lfloor>log 2 \<bar>x\<bar>\<rfloor> \<le> \<bar>x\<bar> \<and> \<bar>x\<bar> < 2 powr of_int (\<lfloor>log 2 \<bar>x\<bar>\<rfloor> + 1)"
    using assms by (subst (asm) floor_log_eq_powr_iff) auto
  then show "2 powr of_int \<lfloor>log 2 \<bar>x\<bar>\<rfloor> \<le> \<bar>x\<bar>" and "\<bar>x\<bar> < 2 powr of_int (\<lfloor>log 2 \<bar>x\<bar>\<rfloor> + 1)"
    by simp_all
qed

lemma f64_eval:
  assumes "x \<noteq> 0" and "2 powr of_int e \<le> \<bar>x\<bar>" and "\<bar>x\<bar> < 2 powr of_int (e + 1)"
  shows "f64 x = of_int (rint (x / 2 powr of_int (e - 52))) * 2 powr of_int (e - 52)"
  using assms(1) expo_eq [OF assms] by (simp add: f64_def Let_def)

lemma f64_eval_bits:
  assumes "2 ^ 52 \<le> \<bar>x\<bar> * 2 ^ n" and "\<bar>x\<bar> * 2 ^ n < 2 ^ 53"
  shows "f64 x = of_int (rint (x * 2 ^ n)) / 2 ^ n"
proof -
  have x: "x \<noteq> 0" using assms(1) by auto
  have p: "(2::real) powr of_int (52 - int n) = 2 ^ 52 / 2 ^ n"
    "(2::real) powr of_int (52 - int n + 1) = 2 ^ 53 / 2 ^ n"
    "(2::real) powr of_int (52 - int n - 52) = 1 / 2 ^ n"
    by (simp_all add: powr_diff powr_add powr_minus powr_realpow divide_inverse)
  have "2 powr of_int (52 - int n) \<le> \<bar>x\<bar>" "\<bar>x\<bar> < 2 powr of_int (52 - int n + 1)"
    unfolding p using assms by (simp_all add: field_simps)
  from f64_eval [OF x this] show ?thesis
    unfolding p by simp
qed

lemma f64_minus: "f64 (- x) = - f64 x"
  by (simp add: f64_def Let_def rint_minus)

text \<open>A number with at most 53 significant bits is a float64 and rounds to itself.\<close>

lemma f64_exact:
  assumes "x = of_int m * 2 powr of_int q" and "\<bar>m\<bar> < 2 ^ 53"
  shows "f64 x = x"
proof (cases "x = 0")
  case True
  then show ?thesis by (simp add: f64_def)
next
  case False
  define e where "e = \<lfloor>log 2 \<bar>x\<bar>\<rfloor>"
  have "\<bar>x\<bar> = of_int \<bar>m\<bar> * 2 powr of_int q"
    using assms(1) by (simp add: abs_mult)
  also have "\<dots> < 2 ^ 53 * 2 powr of_int q"
    using assms(2) by (intro mult_strict_right_mono) (auto simp flip: of_int_less_iff)
  also have "\<dots> = 2 powr of_int (53 + q)"
    by (simp add: powr_add powr_numeral flip: powr_realpow)
  finally have "2 powr of_int e < (2::real) powr of_int (53 + q)"
    using expo_bounds(1) [OF False] unfolding e_def by linarith
  then have "e < 53 + q" by simp
  then have k: "0 \<le> q - (e - 52)" by simp
  have "x / 2 powr of_int (e - 52) = of_int m * 2 powr of_int (q - (e - 52))"
    unfolding assms(1) by (simp add: powr_diff)
  also have "\<dots> = of_int (m * 2 ^ nat (q - (e - 52)))"
    using k powr_real_of_int [of 2 "q - (e - 52)"] by simp
  finally have "of_int (rint (x / 2 powr of_int (e - 52))) = x / 2 powr of_int (e - 52)"
    by (simp only: rint_of_int)
  then show ?thesis
    using False unfolding f64_def Let_def e_def by simp
qed

lemma f64_of_int: "\<bar>m\<bar> < 2 ^ 53 \<Longrightarrow> f64 (of_int m) = of_int m"
  using f64_exact [of "of_int m" m 0] by simp

lemma f64_dyadic: "\<bar>m\<bar> < 2 ^ 53 \<Longrightarrow> f64 (of_int m / 2 ^ n) = of_int m / 2 ^ n"
  using f64_exact [of "of_int m / 2 ^ n" m "- int n"]
  by (simp add: powr_minus powr_realpow divide_inverse)

text \<open>Rounding to float64 keeps the order.\<close>

lemma f64_pos_bounds:
  assumes "0 < x"
  shows "2 powr of_int \<lfloor>log 2 x\<rfloor> \<le> f64 x" and "f64 x \<le> 2 powr of_int (\<lfloor>log 2 x\<rfloor> + 1)"
proof -
  define e where "e = \<lfloor>log 2 x\<rfloor>"
  define u :: real where "u = 2 powr of_int (e - 52)"
  have u: "0 < u" by (simp add: u_def)
  have x0: "x \<noteq> 0" "\<bar>x\<bar> = x" using assms by simp_all
  have lo: "2 powr of_int e \<le> x" and hi: "x < 2 powr of_int (e + 1)"
    using expo_bounds [OF x0(1)] unfolding x0(2) e_def by simp_all
  have fx: "f64 x = of_int (rint (x / u)) * u"
    using x0 by (simp add: f64_def Let_def e_def u_def)
  have p52: "2 powr of_int e / u = of_int (2 ^ 52)"
    unfolding u_def by (simp add: powr_diff)
  have p53: "2 powr of_int (e + 1) / u = of_int (2 ^ 53)"
    unfolding u_def by (simp add: powr_diff powr_add)
  have "of_int (2 ^ 52) \<le> x / u"
    using lo u unfolding p52 [symmetric] by (simp add: divide_right_mono)
  then have "rint (of_int (2 ^ 52)) \<le> rint (x / u)" by (rule rint_mono)
  then have "(of_int (2 ^ 52) :: real) \<le> of_int (rint (x / u))"
    unfolding rint_of_int by (simp only: of_int_le_iff)
  then have "of_int (2 ^ 52) * u \<le> f64 x"
    unfolding fx using u by (simp only: mult_right_mono less_imp_le)
  then show "2 powr of_int \<lfloor>log 2 x\<rfloor> \<le> f64 x"
    unfolding p52 [symmetric] e_def [symmetric] using u by simp
  have "x / u \<le> of_int (2 ^ 53)"
    using hi u unfolding p53 [symmetric] by (simp add: divide_right_mono)
  then have "rint (x / u) \<le> rint (of_int (2 ^ 53))" by (rule rint_mono)
  then have "of_int (rint (x / u)) \<le> (of_int (2 ^ 53) :: real)"
    unfolding rint_of_int by (simp only: of_int_le_iff)
  then have "f64 x \<le> of_int (2 ^ 53) * u"
    unfolding fx using u by (simp only: mult_right_mono less_imp_le)
  then show "f64 x \<le> 2 powr of_int (\<lfloor>log 2 x\<rfloor> + 1)"
    unfolding p53 [symmetric] e_def [symmetric] using u by simp
qed

lemma f64_mono_pos:
  assumes "0 < x" and "x \<le> y"
  shows "f64 x \<le> f64 y"
proof -
  have y: "0 < y" using assms by simp
  have le: "\<lfloor>log 2 x\<rfloor> \<le> \<lfloor>log 2 y\<rfloor>"
    using assms by (intro floor_mono) simp
  show ?thesis
  proof (cases "\<lfloor>log 2 x\<rfloor> = \<lfloor>log 2 y\<rfloor>")
    case True
    define u :: real where "u = 2 powr of_int (\<lfloor>log 2 y\<rfloor> - 52)"
    have u: "0 < u" by (simp add: u_def)
    have "x / u \<le> y / u" using assms u by (simp add: divide_right_mono)
    then have "rint (x / u) \<le> rint (y / u)" by (rule rint_mono)
    then have "(of_int (rint (x / u)) :: real) \<le> of_int (rint (y / u))"
      by (simp only: of_int_le_iff)
    then have "of_int (rint (x / u)) * u \<le> of_int (rint (y / u)) * u"
      using u by (simp only: mult_right_mono less_imp_le)
    then show ?thesis
      using assms(1) y True by (simp add: f64_def Let_def u_def)
  next
    case False
    with le have "\<lfloor>log 2 x\<rfloor> + 1 \<le> \<lfloor>log 2 y\<rfloor>" by simp
    then have "(2::real) powr of_int (\<lfloor>log 2 x\<rfloor> + 1) \<le> 2 powr of_int \<lfloor>log 2 y\<rfloor>"
      by simp
    with f64_pos_bounds(2) [OF assms(1)] f64_pos_bounds(1) [OF y]
    show ?thesis by linarith
  qed
qed

lemma f64_nonneg: "0 \<le> x \<Longrightarrow> 0 \<le> f64 x"
proof (cases "x = 0")
  case False
  assume "0 \<le> x"
  with False have "0 < x" by simp
  from f64_pos_bounds(1) [OF this] show ?thesis
    by (meson powr_ge_zero order_trans)
qed (simp add: f64_def)

lemma f64_mono:
  assumes "x \<le> y"
  shows "f64 x \<le> f64 y"
proof -
  consider "0 < x" | "x \<le> 0" "0 \<le> y" | "y < 0" using assms by linarith
  then show ?thesis
  proof cases
    case 1
    then show ?thesis using assms by (rule f64_mono_pos)
  next
    case 2
    have "0 \<le> f64 (- x)" using 2(1) by (intro f64_nonneg) simp
    then have "f64 x \<le> 0" by (simp add: f64_minus)
    moreover have "0 \<le> f64 y" using 2(2) by (rule f64_nonneg)
    ultimately show ?thesis by simp
  next
    case 3
    have "f64 (- y) \<le> f64 (- x)" using 3 assms by (intro f64_mono_pos) simp_all
    then show ?thesis by (simp add: f64_minus)
  qed
qed

subsection \<open>The Clean Spark Spread column\<close>

lemma getitem_length:
  "wf_df d \<Longrightarrow> getitem d name = Inr c \<Longrightarrow> length c = length (index d)"
  by (auto simp: wf_df_def getitem_def list_all_iff split: option.splits dest!: map_of_SomeD)

lemma calc_css_Inr:
  assumes "getitem d country = Inr market" "getitem d gas_index = Inr gas"
    "getitem d ''EUA Prices'' = Inr eua" "eff \<noteq> 0"
  shows "calc_css d country gas_index eff ef vc =
     Inr (series_sub_scalar
               (series_sub (series_sub market (series_div_scalar gas eff))
                           (series_mul_scalar eua (ef / eff)))
               vc)"
  using assms by (simp add: calc_css_def float_div_def)

lemma calc_css_nth:
  assumes "length market = n" "length gas = n" "length eua = n" "i < n"
  shows "series_sub_scalar
               (series_sub (series_sub market (series_div_scalar gas eff))
                           (series_mul_scalar eua k))
               vc ! i =
         cell_map (\<lambda>x. x - vc)
           (cell_sub (cell_sub (market ! i) (cell_map (\<lambda>x. x / eff) (gas ! i)))
                     (cell_map (\<lambda>x. x * k) (eua ! i)))"
  using assms
  by (simp add: series_sub_scalar_def series_sub_def series_div_scalar_def series_mul_scalar_def)



lemmas calc_defs = calc_css_def getitem_def float_div_def series_sub_scalar_def series_sub_def
        series_div_scalar_def series_mul_scalar_def


text \<open>
  C4. Where the market, gas or carbon price of a row is missing, the CSS cell of that row
  is missing too: it is NaN and no number, so in particular not 0.
\<close>

theorem css_missing_propagates:
  assumes "wf_df d"
    and "getitem d country = Inr market"
    and "getitem d gas_index = Inr gas"
    and "getitem d ''EUA Prices'' = Inr eua"
    and "calc_css d country gas_index eff ef vc = Inr css"
    and "i < length (index d)"
    and "market ! i = NaN \<or> gas ! i = NaN \<or> eua ! i = NaN"
  shows "css ! i = NaN \<and> (\<forall>v. css ! i \<noteq> Num v)"
proof -
  let ?n = "length (index d)"
  have len: "length market = ?n" "length gas = ?n" "length eua = ?n"
    using assms by (auto dest: getitem_length)
  have eff: "eff \<noteq> 0"
    using assms(2-5) by (auto simp: calc_css_def float_div_def split: if_splits)
  have "css = series_sub_scalar
               (series_sub (series_sub market (series_div_scalar gas eff))
                           (series_mul_scalar eua (ef / eff))) vc"
    using assms(2-5) eff by (simp add: calc_css_Inr)
  then have "css ! i = cell_map (\<lambda>x. x - vc)
           (cell_sub (cell_sub (market ! i) (cell_map (\<lambda>x. x / eff) (gas ! i)))
                     (cell_map (\<lambda>x. x * (ef / eff)) (eua ! i)))"
    using len \<open>i < ?n\<close> by (simp add: calc_css_nth)
  with assms(7) have "css ! i = NaN"
    by (cases "market ! i"; cases "gas ! i"; cases "eua ! i") auto
  then show ?thesis by simp
qed

theorem css_missing_propagates_witness:
  "wf_df example_df
   \<and> getitem example_df ''FR'' = Inr [Num 100, Num 100, Num 90, Num 80]
   \<and> getitem example_df ''TTF'' = Inr [Num 30, Num 30, NaN, Num 30]
   \<and> getitem example_df ''EUA Prices'' = Inr [Num 80, Num 80, Num 80, Num 80]
   \<and> calc_css example_df ''FR'' ''TTF'' (1 / 2) 0.09 2
       = Inr [Num 23.6, Num 23.6, NaN, Num 3.6]
   \<and> (2::nat) < length (index example_df)
   \<and> [Num 30, Num 30, NaN, Num 30] ! 2 = NaN
   \<and> [Num 23.6, Num 23.6, NaN, Num 3.6] ! 2 = NaN"
  using css_missing_propagates [of example_df "''FR''" "[Num 100, Num 100, Num 90, Num 80]"
      "''TTF''" "[Num 30, Num 30, NaN, Num 30]" "[Num 80, Num 80, Num 80, Num 80]" "1 / 2" "0.09" 2
      "[Num 23.6, Num 23.6, NaN, Num 3.6]" 2]
  by (simp add: example_df_def wf_df_def calc_defs)

text \<open>
  C6. Two frames with the same index, gas and carbon columns: at a row where the market
  price of the second is at least that of the first, the CSS of the second is at least
  that of the first (it grows by the same amount), both being numbers whenever the gas
  and carbon prices of the row are present and both missing otherwise.
\<close>

theorem css_monotone_in_market:
  assumes "wf_df d" and "wf_df d'" and "index d' = index d"
    and "getitem d country = Inr market" and "getitem d' country = Inr market'"
    and "getitem d gas_index = Inr gas" and "getitem d' gas_index = Inr gas"
    and "getitem d ''EUA Prices'' = Inr eua" and "getitem d' ''EUA Prices'' = Inr eua"
    and "calc_css d country gas_index eff ef vc = Inr css"
    and "i < length (index d)"
    and "market ! i = Num a" and "market' ! i = Num a'" and "a \<le> a'"
  shows "\<exists>css'. calc_css d' country gas_index eff ef vc = Inr css'
           \<and> (css ! i = NaN \<and> css' ! i = NaN
                \<or> (\<exists>v v'. css ! i = Num v \<and> css' ! i = Num v' \<and> v \<le> v' \<and> v' - v = a' - a))
           \<and> (\<forall>g c. gas ! i = Num g \<and> eua ! i = Num c \<longrightarrow>
                 (\<exists>v v'. css ! i = Num v \<and> css' ! i = Num v' \<and> v \<le> v'))"
proof -
  let ?n = "length (index d)"
  have len: "length market = ?n" "length market' = ?n" "length gas = ?n" "length eua = ?n"
    using assms by (auto dest: getitem_length)
  have eff: "eff \<noteq> 0"
    using assms(4,6,8,10) by (auto simp: calc_css_def float_div_def split: if_splits)
  let ?f = "\<lambda>m. series_sub_scalar
               (series_sub (series_sub m (series_div_scalar gas eff))
                           (series_mul_scalar eua (ef / eff))) vc"
  have css: "css = ?f market"
    using assms(4,6,8,10) eff by (simp add: calc_css_Inr)
  have css': "calc_css d' country gas_index eff ef vc = Inr (?f market')"
    using assms(5,7,9) eff by (simp add: calc_css_Inr)
  have n1: "css ! i = cell_map (\<lambda>x. x - vc)
           (cell_sub (cell_sub (Num a) (cell_map (\<lambda>x. x / eff) (gas ! i)))
                     (cell_map (\<lambda>x. x * (ef / eff)) (eua ! i)))"
    using len \<open>i < ?n\<close> assms(12) css calc_css_nth [of market ?n gas eua i eff "ef / eff" vc]
    by simp
  have n2: "?f market' ! i = cell_map (\<lambda>x. x - vc)
           (cell_sub (cell_sub (Num a') (cell_map (\<lambda>x. x / eff) (gas ! i)))
                     (cell_map (\<lambda>x. x * (ef / eff)) (eua ! i)))"
    using len \<open>i < ?n\<close> assms(13) calc_css_nth [of market' ?n gas eua i eff "ef / eff" vc]
    by simp
  have "css ! i = NaN \<and> ?f market' ! i = NaN
                \<or> (\<exists>v v'. css ! i = Num v \<and> ?f market' ! i = Num v' \<and> v \<le> v' \<and> v' - v = a' - a)"
    unfolding n1 n2 using \<open>a \<le> a'\<close> by (cases "gas ! i"; cases "eua ! i") auto
  moreover have "\<forall>g c. gas ! i = Num g \<and> eua ! i = Num c \<longrightarrow>
                 (\<exists>v v'. css ! i = Num v \<and> ?f market' ! i = Num v' \<and> v \<le> v')"
    unfolding n1 n2 using \<open>a \<le> a'\<close> by auto
  ultimately show ?thesis using css' by blast
qed

theorem css_monotone_in_market_witness:
  "wf_df example_df \<and> wf_df example_df_dearer \<and> index example_df_dearer = index example_df
   \<and> getitem example_df ''FR'' = Inr [Num 100, Num 100, Num 90, Num 80]
   \<and> getitem example_df_dearer ''FR'' = Inr [Num 100, Num 110, Num 95, Num 80]
   \<and> getitem example_df ''TTF'' = Inr [Num 30, Num 30, NaN, Num 30]
   \<and> getitem example_df_dearer ''TTF'' = Inr [Num 30, Num 30, NaN, Num 30]
   \<and> getitem example_df ''EUA Prices'' = Inr [Num 80, Num 80, Num 80, Num 80]
   \<and> getitem example_df_dearer ''EUA Prices'' = Inr [Num 80, Num 80, Num 80, Num 80]
   \<and> calc_css example_df ''FR'' ''TTF'' (1 / 2) 0.09 2 = Inr [Num 23.6, Num 23.6, NaN, Num 3.6]
   \<and> (1::nat) < length (index example_df)
   \<and> [Num 100, Num 100, Num 90, Num 80] ! 1 = Num 100
   \<and> [Num 100, Num 110, Num 95, Num 80] ! 1 = Num 110
   \<and> (100::real) \<le> 110
   \<and> calc_css example_df_dearer ''FR'' ''TTF'' (1 / 2) 0.09 2
        = Inr [Num 23.6, Num 33.6, NaN, Num 3.6]"
  using css_monotone_in_market [of example_df example_df_dearer "''FR''"
      "[Num 100, Num 100, Num 90, Num 80]" "[Num 100, Num 110, Num 95, Num 80]"
      "''TTF''" "[Num 30, Num 30, NaN, Num 30]" "[Num 80, Num 80, Num 80, Num 80]"
      "1 / 2" "0.09" 2 "[Num 23.6, Num 23.6, NaN, Num 3.6]" 1 100 110]
  by (simp add: example_df_def example_df_dearer_def setitem_def wf_df_def calc_defs)

subsection \<open>The variable cost, in float64\<close>

lemma f64_0_09: "f64 0.09 = 3242591731706757 / 2 ^ 55"
  by (subst f64_eval_bits [where n = 56]) (simp_all add: rint_def Let_def)

lemma f64_2_1: "f64 2.1 = 4728779608739021 / 2 ^ 51"
  by (subst f64_eval_bits [where n = 51]) (simp_all add: rint_def Let_def)

lemma f64_23_6: "f64 23.6 = 3321404725185741 / 2 ^ 47"
  by (subst f64_eval_bits [where n = 48]) (simp_all add: rint_def Let_def)

lemma scenario_steps:
  "f64 (30 / (1 / 2)) = 60"
  "f64 (100 - 60) = 40"
  "f64 (3242591731706757 / 2 ^ 55 / (1 / 2)) = 3242591731706757 / 2 ^ 54"
  "f64 (80 * (3242591731706757 / 2 ^ 54)) = 2026619832316723 / 2 ^ 47"
  "f64 (40 - 2026619832316723 / 2 ^ 47) = 3602879701896397 / 2 ^ 47"
  "f64 (3602879701896397 / 2 ^ 47 - 2) = 3321404725185741 / 2 ^ 47"
  "f64 (3602879701896397 / 2 ^ 47 - 4728779608739021 / 2 ^ 51) = 47 / 2"
proof -
  show "f64 (30 / (1 / 2)) = 60" using f64_of_int [of 60] by simp
  show "f64 (100 - 60) = 40" using f64_of_int [of 40] by simp
  show "f64 (3242591731706757 / 2 ^ 55 / (1 / 2)) = 3242591731706757 / 2 ^ 54"
    using f64_dyadic [of 3242591731706757 54] by simp
  show "f64 (80 * (3242591731706757 / 2 ^ 54)) = 2026619832316723 / 2 ^ 47"
    by (subst f64_eval_bits [where n = 49]) (simp_all add: rint_def Let_def)
  show "f64 (40 - 2026619832316723 / 2 ^ 47) = 3602879701896397 / 2 ^ 47"
    using f64_dyadic [of 3602879701896397 47] by simp
  show "f64 (3602879701896397 / 2 ^ 47 - 2) = 3321404725185741 / 2 ^ 47"
    using f64_dyadic [of 3321404725185741 47] by simp
  show "f64 (3602879701896397 / 2 ^ 47 - 4728779608739021 / 2 ^ 51) = 47 / 2"
    by (subst f64_eval_bits [where n = 48]) (simp_all add: rint_def Let_def)
qed

lemmas calc64_defs = calc_css64_def getitem_def float_div64_def series_sub_scalar64_def
  series_sub64_def series_div_scalar64_def series_mul_scalar64_def

lemma calc_css64_scenario_row:
  assumes "eff \<noteq> 0"
  shows "calc_css64 scenario_df ''FR'' ''TTF'' eff ef vc =
     Inr [Num (f64 (f64 (f64 (100 - f64 (30 / eff)) - f64 (80 * f64 (ef / eff))) - vc))]"
  using assms by (simp add: scenario_df_def calc64_defs)

lemma half_not_zero: "(1 / 2 :: real) \<noteq> 0"
  by simp

lemma calc_css64_scenario:
  "calc_css64 scenario_df ''FR'' ''TTF'' (1 / 2) (f64 0.09) 2 = Inr [Num (f64 23.6)]"
  "calc_css64 scenario_df ''FR'' ''TTF'' (1 / 2) (f64 0.09) (f64 2.1) = Inr [Num (47 / 2)]"
  unfolding calc_css64_scenario_row [OF half_not_zero] f64_0_09 f64_2_1 f64_23_6 scenario_steps
  by (rule refl)+

lemma scenario_differences:
  "f64 23.6 - 47 / 2 \<noteq> f64 2.1 - 2" "2 \<le> f64 2.1" "47 / 2 \<le> f64 23.6"
  unfolding f64_2_1 f64_23_6 by simp_all

text \<open>
  C5, as stated, fails on the float64 arithmetic of the script. On the row of the
  scenario (market 100, gas 30, carbon 80, efficiency 0.5, emission factor 0.09) the
  variable cost 2.0 gives the float64 23.6 and the variable cost 2.1 gives 23.5: the CSS
  goes down by 0.10000000000000142, the variable cost up by 0.10000000000000009.
\<close>

theorem exact_delta_counterexample:
  "calc_css64 scenario_df ''FR'' ''TTF'' (1 / 2) (f64 0.09) 2 = Inr [Num (f64 23.6)]
   \<and> calc_css64 scenario_df ''FR'' ''TTF'' (1 / 2) (f64 0.09) (f64 2.1) = Inr [Num (47 / 2)]
   \<and> f64 23.6 - 47 / 2 \<noteq> f64 2.1 - 2"
  using calc_css64_scenario scenario_differences(1) by blast

text \<open>
  C5, as the code has it. With everything else fixed, a higher variable cost never gives
  a higher CSS, at any row: the CSS is monotonically non-increasing in the variable cost.
  The two CSS values of a row are the float64 roundings of one and the same number minus
  the one and the other variable cost, so they differ by \<open>\<delta>\<close> up to these two
  roundings and not exactly; a missing cell stays missing, and the run that succeeded
  before succeeds again.
\<close>

theorem css64_variable_cost_monotone:
  assumes "calc_css64 d country gas_index eff ef vc = Inr css"
    and "vc \<le> vc'"
  shows "\<exists>css'. calc_css64 d country gas_index eff ef vc' = Inr css'
           \<and> length css' = length css
           \<and> (\<forall>i<length css.
                  css ! i = NaN \<and> css' ! i = NaN
                  \<or> (\<exists>x v v'. css ! i = Num v \<and> css' ! i = Num v'
                        \<and> v = f64 (x - vc) \<and> v' = f64 (x - vc') \<and> v' \<le> v))"
proof -
  from assms(1) obtain base where
    css: "css = series_sub_scalar64 base vc"
    and css': "calc_css64 d country gas_index eff ef vc' = Inr (series_sub_scalar64 base vc')"
    by (auto simp: calc_css64_def split: sum.splits)
  have row: "series_sub_scalar64 base vc ! i = NaN \<and> series_sub_scalar64 base vc' ! i = NaN
        \<or> (\<exists>x v v'. series_sub_scalar64 base vc ! i = Num v
              \<and> series_sub_scalar64 base vc' ! i = Num v'
              \<and> v = f64 (x - vc) \<and> v' = f64 (x - vc') \<and> v' \<le> v)"
    if "i < length base" for i
  proof (cases "base ! i")
    case (Num x)
    have "f64 (x - vc') \<le> f64 (x - vc)" using assms(2) by (intro f64_mono) simp
    with Num that show ?thesis
      by (auto simp: series_sub_scalar64_def intro!: exI [of _ x])
  next
    case NaN
    with that show ?thesis by (simp add: series_sub_scalar64_def)
  qed
  have len: "length (series_sub_scalar64 base v) = length base" for v
    by (simp add: series_sub_scalar64_def)
  show ?thesis
    unfolding css css' using row by (simp add: len)
qed

theorem css64_variable_cost_monotone_witness:
  "calc_css64 scenario_df ''FR'' ''TTF'' (1 / 2) (f64 0.09) 2 = Inr [Num (f64 23.6)]
   \<and> 2 \<le> f64 2.1
   \<and> calc_css64 scenario_df ''FR'' ''TTF'' (1 / 2) (f64 0.09) (f64 2.1) = Inr [Num (47 / 2)]
   \<and> 47 / 2 \<le> f64 23.6"
  using css64_variable_cost_monotone [OF calc_css64_scenario(1) scenario_differences(2)]
    calc_css64_scenario scenario_differences
  by blast

subsection \<open>The efficiency divisor\<close>

lemma efficiency_eq:
  "efficiency w =
     (case w_efficiency w of
        None \<Rightarrow> Inr (1 / 2)
      | Some v \<Rightarrow> if 30 \<le> v \<and> v \<le> 65 then Inr (of_int v / 100)
                 else Inl StreamlitAPIException)"
  by (simp add: efficiency_def slider_def split: option.splits)

lemma efficiency_range:
  "efficiency w = Inr e \<Longrightarrow> 3 / 10 \<le> e \<and> e \<le> 65 / 100"
  by (auto simp: efficiency_eq split: option.splits if_splits)

lemma read_parameters_efficiency:
  "read_parameters w = Inr p \<Longrightarrow> efficiency w = Inr (p_efficiency p)"
  by (auto simp: read_parameters_def split: sum.splits)

lemma read_parameters_error: "read_parameters w = Inl e \<Longrightarrow> e = StreamlitAPIException"
  by (auto simp: read_parameters_def selected_country_def selected_gas_index_def selectbox_def
      efficiency_def emission_factor_th_def slider_def Let_def
      split: sum.splits option.splits if_splits)

lemma calc_css_zero_div:
  "calc_css d c g eff ef vc = Inl ZeroDivisionError \<Longrightarrow> eff = 0"
  by (auto simp: calc_css_def getitem_def float_div_def split: sum.splits option.splits if_splits)

lemma select_dates_error:
  "select_dates d p = Inl e \<Longrightarrow> e = ValueError \<or> e = StreamlitAPIException"
  by (auto simp: select_dates_def min_date_def max_date_def py_min_def py_max_def unpack2_def
      date_input_def split: sum.splits list.splits option.splits if_splits)

lemma filter_step_error: "snd (filter_step s df a b) = Inl e \<Longrightarrow> e = ValueError"
  by (auto simp: filter_step_def date_filter_def getitem_mask_def alloc_def Let_def
      split: sum.splits if_splits)

lemma metrics_step_error: "snd (metrics_step sum64 s r) = Inl e \<Longrightarrow> \<exists>n. e = KeyError n"
  by (auto simp: metrics_step_def rounded_mean_css_def getitem_def alloc_def Let_def
      split: sum.splits option.splits)

lemma css_step_zero_div:
  "snd (css_step s r p) = Inl ZeroDivisionError \<Longrightarrow> p_efficiency p = 0"
  by (auto simp: css_step_def split: sum.splits dest: calc_css_zero_div)

lemma script_zero_div:
  assumes "snd (script sum64 s df w) = Inl ZeroDivisionError"
  shows "\<exists>p. read_parameters w = Inr p \<and> p_efficiency p = 0"
proof (cases "read_parameters w")
  case (Inl e)
  with assms show ?thesis by (auto simp: script_def dest: read_parameters_error)
next
  case p: (Inr p)
  show ?thesis
  proof (cases "select_dates (s ! df) (w_dates w)")
    case (Inl e)
    with assms p show ?thesis by (auto simp: script_def dest: select_dates_error)
  next
    case (Inr se)
    obtain a b where se: "se = (a, b)" by (cases se)
    obtain s1 r1 where f: "filter_step s df a b = (s1, r1)" by (cases "filter_step s df a b")
    show ?thesis
    proof (cases r1)
      case (Inl e)
      with assms p Inr se f filter_step_error [of s df a b e] show ?thesis
        by (auto simp: script_def)
    next
      case r: (Inr dff)
      obtain s2 r2 where c: "css_step s1 dff p = (s2, r2)" by (cases "css_step s1 dff p")
      show ?thesis
      proof (cases r2)
        case (Inl e)
        with assms p Inr se f r c css_step_zero_div [of s1 dff p] show ?thesis
          by (auto simp: script_def)
      next
        case u: (Inr u)
        obtain s3 r3 where m: "metrics_step sum64 s2 dff = (s3, r3)"
          by (cases "metrics_step sum64 s2 dff")
        with assms p Inr se f r c u metrics_step_error [of sum64 s2 dff] show ?thesis
          by (cases r3) (auto simp: script_def)
      qed
    qed
  qed
qed

text \<open>
  C9. The efficiency slider returns 30 to 65 percent and nothing else: a position outside
  is refused. So the efficiency that reaches the CSS calculation is at least 0.3 and not
  zero, the division of the emission factor by it is defined, and neither the CSS
  calculation nor a run of the script raises ZeroDivisionError.
\<close>

theorem efficiency_never_zero:
  "efficiency w =
     (case w_efficiency w of
        None \<Rightarrow> Inr (1 / 2)
      | Some v \<Rightarrow> if 30 \<le> v \<and> v \<le> 65 then Inr (of_int v / 100)
                 else Inl StreamlitAPIException)
   \<and> (\<forall>e. efficiency w = Inr e \<longrightarrow> 3 / 10 \<le> e \<and> e \<le> 65 / 100 \<and> e \<noteq> 0)
   \<and> (\<forall>p. read_parameters w = Inr p \<longrightarrow>
          3 / 10 \<le> p_efficiency p \<and> p_efficiency p \<noteq> 0
          \<and> float_div (p_emission_factor_th p) (p_efficiency p)
              = Inr (p_emission_factor_th p / p_efficiency p)
          \<and> calc_css d (p_country p) (p_gas_index p) (p_efficiency p)
               (p_emission_factor_th p) (p_variable_cost p) \<noteq> Inl ZeroDivisionError)
   \<and> snd (script sum64 s df w) \<noteq> Inl ZeroDivisionError"
proof -
  have a: "3 / 10 \<le> e \<and> e \<le> 65 / 100 \<and> e \<noteq> 0" if "efficiency w = Inr e" for e
    using efficiency_range [OF that] by auto
  have b: "3 / 10 \<le> p_efficiency p \<and> p_efficiency p \<noteq> 0
          \<and> float_div (p_emission_factor_th p) (p_efficiency p)
              = Inr (p_emission_factor_th p / p_efficiency p)
          \<and> calc_css d (p_country p) (p_gas_index p) (p_efficiency p)
               (p_emission_factor_th p) (p_variable_cost p) \<noteq> Inl ZeroDivisionError"
    if "read_parameters w = Inr p" for p
  proof -
    have nz: "3 / 10 \<le> p_efficiency p" "p_efficiency p \<noteq> 0"
      using a [OF read_parameters_efficiency [OF that]] by simp_all
    have "calc_css d (p_country p) (p_gas_index p) (p_efficiency p)
               (p_emission_factor_th p) (p_variable_cost p) \<noteq> Inl ZeroDivisionError"
      using nz(2) calc_css_zero_div by blast
    moreover have "float_div (p_emission_factor_th p) (p_efficiency p)
              = Inr (p_emission_factor_th p / p_efficiency p)"
      using nz(2) by (simp add: float_div_def)
    ultimately show ?thesis using nz by blast
  qed
  have c: "snd (script sum64 s df w) \<noteq> Inl ZeroDivisionError"
  proof
    assume "snd (script sum64 s df w) = Inl ZeroDivisionError"
    from script_zero_div [OF this] b show False by auto
  qed
  from a b c efficiency_eq [of w] show ?thesis by blast
qed

lemma example_parameters:
  "read_parameters (example_widgets\<lparr>w_dates := ds\<rparr>) =
     Inr \<lparr>p_country = ''FR'', p_gas_index = ''TTF'', p_efficiency = 3 / 10,
          p_emission_factor_th = 0.09, p_variable_cost = 2\<rparr>"
  by (simp add: example_widgets_def read_parameters_def selected_country_def
      selected_gas_index_def selectbox_def efficiency_def emission_factor_th_def
      variable_cost_def slider_def number_input_def)

theorem efficiency_never_zero_witness:
  "efficiency example_widgets = Inr (3 / 10)
   \<and> read_parameters example_widgets =
       Inr \<lparr>p_country = ''FR'', p_gas_index = ''TTF'', p_efficiency = 3 / 10,
            p_emission_factor_th = 0.09, p_variable_cost = 2\<rparr>
   \<and> float_div 0.09 (3 / 10) = Inr (0.09 / (3 / 10))
   \<and> snd (script sum_left [example_df] 0 example_widgets) \<noteq> Inl ZeroDivisionError
   \<and> efficiency (example_widgets\<lparr>w_efficiency := Some 0\<rparr>) = Inl StreamlitAPIException"
proof -
  have w: "example_widgets\<lparr>w_dates := None\<rparr> = example_widgets"
    by (simp add: example_widgets_def)
  have e: "efficiency example_widgets = Inr (3 / 10)"
    "efficiency (example_widgets\<lparr>w_efficiency := Some 0\<rparr>) = Inl StreamlitAPIException"
    by (simp_all add: example_widgets_def efficiency_eq)
  have f: "float_div 0.09 (3 / 10) = Inr (0.09 / (3 / 10))"
    by (simp add: float_div_def)
  from efficiency_never_zero [of example_widgets example_df sum_left "[example_df]" 0]
    example_parameters [of None, unfolded w] e f
  show ?thesis by blast
qed

subsection \<open>The date filter\<close>

lemma select_map_filter: "select (map P xs) xs = filter P xs"
  by (induction xs) auto

lemma select_map_zip:
  "length ys = length xs \<Longrightarrow>
   select (map P xs) ys = map snd (filter (\<lambda>(x, y). P x) (zip xs ys))"
  by (induction xs ys rule: list_induct2') auto

lemma date_mask_eq:
  "date_mask d sd ed = map (\<lambda>t. sd \<le> date_of t \<and> date_of t \<le> ed) (index d)"
  by (simp add: date_mask_def dates_def zip_map_map zip_same_conv_map)

lemma date_filter_eq:
  assumes "wf_df d"
  shows "date_filter d sd ed =
     Inr \<lparr>index = filter (\<lambda>t. sd \<le> date_of t \<and> date_of t \<le> ed) (index d),
          columns = map (\<lambda>(n, c). (n, map snd (filter (\<lambda>(t, v). sd \<le> date_of t \<and> date_of t \<le> ed)
                                                  (zip (index d) c)))) (columns d)\<rparr>"
proof -
  have "select (map (\<lambda>t. sd \<le> date_of t \<and> date_of t \<le> ed) (index d)) c
        = map snd (filter (\<lambda>(t, v). sd \<le> date_of t \<and> date_of t \<le> ed) (zip (index d) c))"
    if "(n, c) \<in> set (columns d)" for n c
    using that assms by (intro select_map_zip) (auto simp: wf_df_def list_all_iff)
  then show ?thesis
    by (auto simp: date_filter_def getitem_mask_def date_mask_eq select_map_filter)
qed

lemma py_min_Min: "xs \<noteq> [] \<Longrightarrow> py_min xs = Inr (Min (set xs))"
proof (cases xs)
  case (Cons a ys)
  then show ?thesis using Min.set_eq_fold [of a ys] by (simp add: py_min_def)
qed simp

lemma py_max_Max: "xs \<noteq> [] \<Longrightarrow> py_max xs = Inr (Max (set xs))"
proof (cases xs)
  case (Cons a ys)
  then show ?thesis using Max.set_eq_fold [of a ys] by (simp add: py_max_def)
qed simp

lemma select_dates_bounds:
  assumes "min_date d = Inr mn" and "max_date d = Inr mx"
  shows "select_dates d None = (if mn \<le> mx then Inr (mn, mx) else Inl StreamlitAPIException)"
    and "select_dates d picked = Inr (a, b) \<Longrightarrow> mn \<le> a \<and> a \<le> mx \<and> mn \<le> b \<and> b \<le> mx"
proof -
  show "select_dates d None = (if mn \<le> mx then Inr (mn, mx) else Inl StreamlitAPIException)"
    using assms by (auto simp: select_dates_def date_input_def unpack2_def)
  assume "select_dates d picked = Inr (a, b)"
  then show "mn \<le> a \<and> a \<le> mx \<and> mn \<le> b \<and> b \<le> mx"
    using assms
    by (auto simp: select_dates_def date_input_def unpack2_def
        split: sum.splits option.splits list.splits if_splits)
qed

text \<open>
  C7. The date filter keeps, in their order, exactly the rows whose calendar date (the
  time of day plays no part) is from \<open>start_date\<close> to \<open>end_date\<close>, both included.
  The lower bound of the date widget is the later of the earliest date of the frame and
  2025-04-01, its upper bound is the latest date of the frame: these two are the range
  selected by default, and no date outside them can be selected. (When the lower bound is
  after the upper one, that is when the whole frame is before 2025-04-01, the widget
  raises and nothing is selected.)
\<close>

theorem date_filter_keeps_range:
  assumes "wf_df d"
  shows "(\<exists>r. date_filter d start_date end_date = Inr r
            \<and> index r = filter (\<lambda>t. start_date \<le> date_of t \<and> date_of t \<le> end_date) (index d)
            \<and> columns r =
                map (\<lambda>(n, c). (n, map snd (filter (\<lambda>(t, v). start_date \<le> date_of t
                                                        \<and> date_of t \<le> end_date)
                                              (zip (index d) c))))
                    (columns d))
       \<and> (index d \<noteq> [] \<longrightarrow>
            min_date d = Inr (max (Min (set (dates d))) (2025, 4, 1))
            \<and> max_date d = Inr (Max (set (dates d)))
            \<and> select_dates d None
                = (if max (Min (set (dates d))) (2025, 4, 1) \<le> Max (set (dates d))
                   then Inr (max (Min (set (dates d))) (2025, 4, 1), Max (set (dates d)))
                   else Inl StreamlitAPIException)
            \<and> (\<forall>picked a b. select_dates d picked = Inr (a, b) \<longrightarrow>
                  max (Min (set (dates d))) (2025, 4, 1) \<le> a \<and> a \<le> Max (set (dates d))
                  \<and> max (Min (set (dates d))) (2025, 4, 1) \<le> b \<and> b \<le> Max (set (dates d))))"
proof -
  let ?mn = "max (Min (set (dates d))) (2025, 4, 1)"
  let ?mx = "Max (set (dates d))"
  have "min_date d = Inr ?mn \<and> max_date d = Inr ?mx
        \<and> select_dates d None = (if ?mn \<le> ?mx then Inr (?mn, ?mx) else Inl StreamlitAPIException)
        \<and> (\<forall>picked a b. select_dates d picked = Inr (a, b) \<longrightarrow>
              ?mn \<le> a \<and> a \<le> ?mx \<and> ?mn \<le> b \<and> b \<le> ?mx)"
    if "index d \<noteq> []"
  proof -
    have "dates d \<noteq> []" using that by (simp add: dates_def)
    then have mm: "min_date d = Inr ?mn" "max_date d = Inr ?mx"
      by (simp_all add: min_date_def max_date_def py_min_Min py_max_Max floor_date_def)
    from select_dates_bounds [OF mm] mm show ?thesis by blast
  qed
  then show ?thesis using date_filter_eq [OF assms, of start_date end_date] by simp
qed

lemma length_filter_zip:
  "length ys = length xs \<Longrightarrow>
   length (filter (\<lambda>(x, y). P x) (zip xs ys)) = length (filter P xs)"
  by (induction xs ys rule: list_induct2') auto

lemma wf_date_filter:
  assumes "wf_df d" and "date_filter d sd ed = Inr r"
  shows "wf_df r"
proof -
  let ?P = "\<lambda>t. sd \<le> date_of t \<and> date_of t \<le> ed"
  have len: "length (map snd (filter (\<lambda>(t, v). ?P t) (zip (index d) c)))
             = length (filter ?P (index d))"
    if "(n, c) \<in> set (columns d)" for n c
  proof -
    have "length c = length (index d)"
      using that assms(1) by (auto simp: wf_df_def list_all_iff)
    then show ?thesis using length_filter_zip [of c "index d" ?P] by simp
  qed
  have r: "r = \<lparr>index = filter ?P (index d),
                 columns = map (\<lambda>(n, c). (n, map snd (filter (\<lambda>(t, v). ?P t) (zip (index d) c))))
                               (columns d)\<rparr>"
    using assms(2) unfolding date_filter_eq [OF assms(1)] by simp
  show ?thesis
    unfolding wf_df_def list_all_iff r using len by auto
qed

lemma filter_zip_all:
  "length ys = length xs \<Longrightarrow> \<forall>x\<in>set xs. P x \<Longrightarrow>
   map snd (filter (\<lambda>(x, y). P x) (zip xs ys)) = ys"
  by (induction xs ys rule: list_induct2') auto

lemma date_filter_all:
  assumes "wf_df r" and "\<forall>t\<in>set (index r). lo \<le> date_of t \<and> date_of t \<le> hi"
  shows "date_filter r lo hi = Inr r"
proof -
  have "map snd (filter (\<lambda>(t, v). lo \<le> date_of t \<and> date_of t \<le> hi) (zip (index r) c)) = c"
    if "(n, c) \<in> set (columns r)" for n c
    using that assms by (intro filter_zip_all) (auto simp: wf_df_def list_all_iff)
  then have "map (\<lambda>(n, c). (n, map snd (filter (\<lambda>(t, v). lo \<le> date_of t \<and> date_of t \<le> hi)
                                                  (zip (index r) c)))) (columns r) = columns r"
    by (intro map_idI) auto
  moreover have "filter (\<lambda>t. lo \<le> date_of t \<and> date_of t \<le> hi) (index r) = index r"
    using assms(2) by (intro filter_True) auto
  ultimately show ?thesis by (simp add: date_filter_eq [OF assms(1)])
qed

text \<open>
  C8. Filtering the result of a date filter again gives the same frame: with the same
  interval, and with the earliest and latest date of the result as the interval. (An empty
  result has no such dates, and any interval gives it back.)
\<close>

theorem date_filter_idempotent:
  assumes "wf_df d" and "date_filter d d1 d2 = Inr r"
  shows "date_filter r d1 d2 = Inr r
       \<and> (index r \<noteq> [] \<longrightarrow>
            (\<exists>lo hi. py_min (dates r) = Inr lo \<and> py_max (dates r) = Inr hi
                      \<and> date_filter r lo hi = Inr r))
       \<and> (index r = [] \<longrightarrow> py_min (dates r) = Inl ValueError \<and> (\<forall>lo hi. date_filter r lo hi = Inr r))"
proof -
  have wf: "wf_df r" using assms by (rule wf_date_filter)
  have ix: "index r = filter (\<lambda>t. d1 \<le> date_of t \<and> date_of t \<le> d2) (index d)"
    using assms(2) unfolding date_filter_eq [OF assms(1)] by auto
  have a: "date_filter r d1 d2 = Inr r"
    using wf ix by (intro date_filter_all) auto
  have b: "\<exists>lo hi. py_min (dates r) = Inr lo \<and> py_max (dates r) = Inr hi
                      \<and> date_filter r lo hi = Inr r" if ne: "index r \<noteq> []"
  proof -
    have dne: "dates r \<noteq> []" using ne by (simp add: dates_def)
    have "\<forall>t\<in>set (index r). Min (set (dates r)) \<le> date_of t \<and> date_of t \<le> Max (set (dates r))"
      by (simp add: dates_def)
    then have "date_filter r (Min (set (dates r))) (Max (set (dates r))) = Inr r"
      using wf by (intro date_filter_all)
    then show ?thesis using dne by (simp add: py_min_Min py_max_Max)
  qed
  have c: "py_min (dates r) = Inl ValueError \<and> (\<forall>lo hi. date_filter r lo hi = Inr r)"
    if "index r = []"
    using that wf by (auto simp: py_min_def dates_def intro: date_filter_all)
  from a b c show ?thesis by blast
qed

subsection \<open>The two means\<close>







text \<open>
  For example, the float64 nearest to 2.675 is a little below it, its float64 product
  with 100 is 267.5 exactly, a tie that goes to the even 268: the page shows 2.68.
\<close>

lemma py_round_tie_example: "py_round (Num (f64 2.675)) 2 = Num (f64 2.68)"
proof -
  have a: "f64 2.675 = 3011782250804019 / 2 ^ 50"
    by (subst f64_eval_bits [where n = 51]) (simp_all add: rint_def Let_def)
  have b: "f64 (3011782250804019 / 2 ^ 50 * 10 ^ 2) = 535 / 2"
    by (subst f64_eval_bits [where n = 44]) (simp_all add: rint_def Let_def)
  have c: "rint (535 / 2) = 268"
    by (simp add: rint_def Let_def)
  have d: "real_of_int 268 / 10 ^ 2 = 2.68"
    by simp
  show ?thesis
    unfolding py_round_def a cell.case b c d ..
qed

lemma peak_mask_eq:
  "between_time_mask d peak_start peak_end =
     map (\<lambda>t. 28800000000 \<le> get_time_micros t \<and> get_time_micros t \<le> 72000000000) (index d)"
  by (simp add: between_time_mask_def peak_start_def peak_end_def)

lemma map_of_map_columns:
  "map_of (map (\<lambda>(n, c). (n, f c)) cs) name = map_option f (map_of cs name)"
  by (induction cs) auto

lemma getitem_between_time:
  "getitem d name = Inr c \<Longrightarrow>
   getitem (between_time d a b) name = Inr (select (between_time_mask d a b) c)"
  by (auto simp: getitem_def between_time_def Let_def map_of_map_columns split: option.splits)

lemma metrics_step_eq:
  assumes "r < length s" and "getitem (s ! r) ''CSS'' = Inr css"
  shows "metrics_step sum64 s r =
     (s @ [between_time (s ! r) peak_start peak_end, between_time (s ! r) peak_start peak_end],
      Inr (fstring (py_round (series_mean sum64 css) 2),
           fstring (py_round (series_mean sum64
              (select (between_time_mask (s ! r) peak_start peak_end) css)) 2)))"
  using assms
  by (simp add: metrics_step_def alloc_def rounded_mean_css_def nth_append
      getitem_between_time)


text \<open>
  C3, as the code has it. When no row of the filtered frame is in the peak window, the
  peak average is NaN and the page shows the text \<open>nan\<close> for it; when the filtered
  frame has no row at all, both averages are shown as \<open>nan\<close>. Nothing is raised and
  no 0 is shown.
\<close>

theorem empty_selection_shows_nan:
  assumes "df_filtered < length s"
    and "wf_df (s ! df_filtered)"
    and "getitem (s ! df_filtered) ''CSS'' = Inr css"
  shows "(index (between_time (s ! df_filtered) peak_start peak_end) = [] \<longrightarrow>
            (\<exists>avg. snd (metrics_step sum64 s df_filtered) = Inr (avg, Shown_text ''nan'')))
       \<and> (index (s ! df_filtered) = [] \<longrightarrow>
            snd (metrics_step sum64 s df_filtered) = Inr (Shown_text ''nan'', Shown_text ''nan''))"
proof -
  let ?d = "s ! df_filtered"
  let ?m = "between_time_mask ?d peak_start peak_end"
  have len: "length css = length (index ?d)"
    using assms(2,3) by (rule getitem_length)
  have sel: "length (select (map P (index ?d)) css) = length (select (map P (index ?d)) (index ?d))"
    for P
    using len by (simp add: select_map_zip select_map_filter length_filter_zip)
  have a: "select ?m css = []" if "index (between_time ?d peak_start peak_end) = []"
    using that sel [of "\<lambda>t. 28800000000 \<le> get_time_micros t \<and> get_time_micros t \<le> 72000000000"]
    by (simp add: between_time_def Let_def peak_mask_eq)
  have b: "css = []" if "index ?d = []"
    using that len by simp
  have nan: "fstring (py_round (series_mean sum64 []) 2) = Shown_text ''nan''"
    by (simp add: series_mean_def py_round_def fstring_def)
  show ?thesis
    unfolding metrics_step_eq [OF assms(1,3)] using a b nan by auto
qed

subsection \<open>The loaded frame\<close>

lemma filter_step_old:
  "r < length s \<Longrightarrow> fst (filter_step s df a b) ! r = s ! r"
  by (simp add: filter_step_def alloc_def Let_def nth_append split: sum.splits)

lemma filter_step_new:
  assumes "filter_step s df a b = (s', Inr f)"
  shows "f = Suc (length s) \<and> length s' = length s + 2
       \<and> (\<exists>sel. date_filter (s ! df) a b = Inr sel \<and> s' ! f = sel)"
  using assms
  by (auto simp: filter_step_def alloc_def Let_def nth_append to_datetime_def split: sum.splits)

lemma filter_step_length: "length s \<le> length (fst (filter_step s df a b))"
  by (simp add: filter_step_def alloc_def Let_def split: sum.splits)

lemma css_step_other: "r \<noteq> f \<Longrightarrow> fst (css_step s f p) ! r = s ! r"
  by (simp add: css_step_def split: sum.splits)

lemma css_step_length: "length (fst (css_step s f p)) = length s"
  by (simp add: css_step_def split: sum.splits)

lemma css_step_new:
  assumes "css_step s f p = (s', Inr u)" and "f < length s"
  shows "\<exists>css. calc_css (s ! f) (p_country p) (p_gas_index p) (p_efficiency p)
                  (p_emission_factor_th p) (p_variable_cost p) = Inr css
               \<and> s' ! f = setitem (s ! f) ''CSS'' css"
  using assms by (auto simp: css_step_def split: sum.splits)

lemma getitem_setitem: "getitem (setitem d name vs) name = Inr vs"
  by (simp add: getitem_def setitem_def update_conv')

lemma metrics_step_old: "r < length s \<Longrightarrow> fst (metrics_step sum64 s f) ! r = s ! r"
  by (simp add: metrics_step_def alloc_def Let_def nth_append split: sum.splits)

lemma metrics_step_length: "length s \<le> length (fst (metrics_step sum64 s f))"
  by (simp add: metrics_step_def alloc_def Let_def split: sum.splits)

lemma script_without_parameters:
  "read_parameters w = Inl e \<Longrightarrow> script sum64 s df w = (s, Inl e)"
  by (simp add: script_def)

lemma script_with_parameters:
  assumes "read_parameters w = Inr par"
  shows "script sum64 s df w =
     (case select_dates (s ! df) (w_dates w) of
        Inl e \<Rightarrow> (s, Inl e)
      | Inr (start_date, end_date) \<Rightarrow>
      case filter_step s df start_date end_date of
        (s1, Inl e) \<Rightarrow> (s1, Inl e)
      | (s1, Inr df_filtered) \<Rightarrow>
      case css_step s1 df_filtered par of
        (s2, Inl e) \<Rightarrow> (s2, Inl e)
      | (s2, Inr _) \<Rightarrow>
      case metrics_step sum64 s2 df_filtered of
        (s3, Inl e) \<Rightarrow> (s3, Inl e)
      | (s3, Inr (avg, peak)) \<Rightarrow>
          (s3, Inr \<lparr>shown_avg_css = avg, shown_peak_css = peak,
                     df_filtered_ref = df_filtered\<rparr>))"
  using assms by (simp add: script_def)

lemma script_old:
  assumes "r < length s"
  shows "fst (script sum64 s df w) ! r = s ! r"
proof (cases "read_parameters w")
  case (Inl e)
  then show ?thesis by (simp add: script_without_parameters)
next
  case (Inr par)
  note run = script_with_parameters [OF Inr]
  show ?thesis
  proof (cases "select_dates (s ! df) (w_dates w)")
  case (Inl e)
  then show ?thesis by (simp add: run)
next
  case (Inr se)
  obtain a b where se: "se = (a, b)" by (cases se)
  obtain s1 r1 where f: "filter_step s df a b = (s1, r1)" by (cases "filter_step s df a b")
  have s1: "s1 ! r = s ! r" "length s \<le> length s1"
    using filter_step_old [OF assms, of df a b] filter_step_length [of s df a b] f by simp_all
  show ?thesis
  proof (cases r1)
    case (Inl e)
    with Inr se f s1 show ?thesis by (simp add: run)
  next
    case r: (Inr dff)
    have dff: "r \<noteq> dff" using filter_step_new [of s df a b s1 dff] f r assms by simp
    obtain s2 r2 where c: "css_step s1 dff par = (s2, r2)" by (cases "css_step s1 dff par")
    have s2: "s2 ! r = s ! r" "length s \<le> length s2"
      using css_step_other [OF dff, of s1 par] css_step_length [of s1 dff par] c s1 by simp_all
    show ?thesis
    proof (cases r2)
      case (Inl e)
      with Inr se f r c s2 show ?thesis by (simp add: run)
    next
      case u: (Inr u)
      obtain s3 r3 where m: "metrics_step sum64 s2 dff = (s3, r3)" by (cases "metrics_step sum64 s2 dff")
      have "r < length s2" using assms s2 by simp
      then have "s3 ! r = s ! r"
        using metrics_step_old [of r s2 sum64 dff] m s2 by simp
      with Inr se f r c u m show ?thesis
        by (cases r3) (auto simp: run)
    qed
  qed
qed
qed

lemma script_new:
  assumes "snd (script sum64 s df w) = Inr pg"
  shows "df_filtered_ref pg = Suc (length s)
       \<and> (\<exists>par a b sel css. read_parameters w = Inr par
             \<and> select_dates (s ! df) (w_dates w) = Inr (a, b)
             \<and> date_filter (s ! df) a b = Inr sel
             \<and> calc_css sel (p_country par) (p_gas_index par) (p_efficiency par)
                  (p_emission_factor_th par) (p_variable_cost par) = Inr css
             \<and> fst (script sum64 s df w) ! df_filtered_ref pg = setitem sel ''CSS'' css)"
proof (cases "read_parameters w")
  case (Inl e)
  with assms show ?thesis by (simp add: script_without_parameters)
next
  case par: (Inr par)
  note run = script_with_parameters [OF par]
  show ?thesis
  proof (cases "select_dates (s ! df) (w_dates w)")
  case (Inl e)
  with assms show ?thesis by (simp add: run)
next
  case (Inr se)
  obtain a b where se: "se = (a, b)" by (cases se)
  obtain s1 r1 where f: "filter_step s df a b = (s1, r1)" by (cases "filter_step s df a b")
  show ?thesis
  proof (cases r1)
    case (Inl e)
    with assms Inr se f show ?thesis by (simp add: run)
  next
    case r: (Inr dff)
    from filter_step_new [of s df a b s1 dff] f r obtain sel where
      dff: "dff = Suc (length s)" and l1: "length s1 = length s + 2"
      and sel: "date_filter (s ! df) a b = Inr sel" "s1 ! dff = sel"
      by auto
    obtain s2 r2 where c: "css_step s1 dff par = (s2, r2)" by (cases "css_step s1 dff par")
    show ?thesis
    proof (cases r2)
      case (Inl e)
      with assms Inr se f r c show ?thesis by (simp add: run)
    next
      case u: (Inr u)
      from css_step_new [of s1 dff par s2 u] c u dff l1 sel obtain css where
        css: "calc_css sel (p_country par) (p_gas_index par) (p_efficiency par)
                  (p_emission_factor_th par) (p_variable_cost par) = Inr css"
        and s2: "s2 ! dff = setitem sel ''CSS'' css"
        by auto
      have l2: "dff < length s2" using css_step_length [of s1 dff par] c dff l1 by simp
      obtain s3 r3 where m: "metrics_step sum64 s2 dff = (s3, r3)" by (cases "metrics_step sum64 s2 dff")
      have s3: "s3 ! dff = setitem sel ''CSS'' css"
        using metrics_step_old [OF l2, of sum64 dff] m s2 by simp
      show ?thesis
      proof (cases r3)
        case (Inl e)
        with assms Inr se f r c u m show ?thesis by (simp add: run)
      next
        case (Inr ap)
        obtain av pk where ap: "ap = (av, pk)" by (cases ap)
        have "script sum64 s df w = (s3, Inr \<lparr>shown_avg_css = av, shown_peak_css = pk,
                     df_filtered_ref = dff\<rparr>)"
          using \<open>select_dates (s ! df) (w_dates w) = Inr se\<close> se f r c u m Inr ap
          by (simp add: run)
        with assms have pg: "df_filtered_ref pg = dff" "fst (script sum64 s df w) = s3" by auto
        show ?thesis
          unfolding pg using dff sel(1) css s3 \<open>select_dates (s ! df) (w_dates w) = Inr se\<close> se
            par
          by auto
      qed
    qed
  qed
qed
qed

text \<open>
  C10. A run of the script leaves the loaded frame, and every frame that was in the store,
  as it was, whether the run ends or raises. When it ends, \<open>df_filtered\<close> is a frame
  of its own, not the loaded one: the rows the date filter selects from the loaded frame,
  with the CSS column set on it.
\<close>

theorem script_keeps_loaded_frame:
  assumes "df < length s"
  shows "fst (script sum64 s df w) ! df = s ! df
       \<and> (\<forall>r<length s. fst (script sum64 s df w) ! r = s ! r)
       \<and> (\<forall>pg. snd (script sum64 s df w) = Inr pg \<longrightarrow>
            df_filtered_ref pg \<noteq> df \<and> length s \<le> df_filtered_ref pg
            \<and> (\<exists>par start_date end_date sel css.
                  read_parameters w = Inr par
                  \<and> select_dates (s ! df) (w_dates w) = Inr (start_date, end_date)
                  \<and> date_filter (s ! df) start_date end_date = Inr sel
                  \<and> calc_css sel (p_country par) (p_gas_index par) (p_efficiency par)
                       (p_emission_factor_th par) (p_variable_cost par) = Inr css
                  \<and> fst (script sum64 s df w) ! df_filtered_ref pg = setitem sel ''CSS'' css))"
proof -
  have old: "\<forall>r<length s. fst (script sum64 s df w) ! r = s ! r"
    by (simp add: script_old)
  have new: "df_filtered_ref pg \<noteq> df \<and> length s \<le> df_filtered_ref pg
            \<and> (\<exists>par start_date end_date sel css.
                  read_parameters w = Inr par
                  \<and> select_dates (s ! df) (w_dates w) = Inr (start_date, end_date)
                  \<and> date_filter (s ! df) start_date end_date = Inr sel
                  \<and> calc_css sel (p_country par) (p_gas_index par) (p_efficiency par)
                       (p_emission_factor_th par) (p_variable_cost par) = Inr css
                  \<and> fst (script sum64 s df w) ! df_filtered_ref pg = setitem sel ''CSS'' css)"
    if "snd (script sum64 s df w) = Inr pg" for pg
    using script_new [OF that] assms by auto
  from old new assms show ?thesis by blast
qed

subsection \<open>Runs on the small frame\<close>

text \<open>A run that gets through, by its pure parts.\<close>

lemma script_eval:
  assumes "read_parameters w = Inr par"
    and "select_dates (s ! df) (w_dates w) = Inr (a, b)"
    and "date_filter (s ! df) a b = Inr sel"
    and "calc_css sel (p_country par) (p_gas_index par) (p_efficiency par)
           (p_emission_factor_th par) (p_variable_cost par) = Inr css"
  shows "snd (script sum64 s df w) =
     Inr \<lparr>shown_avg_css = fstring (py_round (series_mean sum64 css) 2),
          shown_peak_css = fstring (py_round (series_mean sum64
             (select (between_time_mask sel peak_start peak_end) css)) 2),
          df_filtered_ref = Suc (length s)\<rparr>"
proof -
  let ?s1 = "s @ [sel, sel]"
  let ?f = "Suc (length s)"
  let ?s2 = "?s1[?f := setitem sel ''CSS'' css]"
  have f: "filter_step s df a b = (?s1, Inr ?f)"
    using assms(3) by (simp add: filter_step_def alloc_def to_datetime_def nth_append)
  have c: "css_step ?s1 ?f par = (?s2, Inr ())"
    using assms(4) by (simp add: css_step_def nth_append)
  have g: "getitem (?s2 ! ?f) ''CSS'' = Inr css"
    by (simp add: getitem_setitem nth_append)
  have i: "index (?s2 ! ?f) = index sel"
    by (simp add: setitem_def nth_append)
  have m: "snd (metrics_step sum64 ?s2 ?f) =
      Inr (fstring (py_round (series_mean sum64 css) 2),
           fstring (py_round (series_mean sum64
              (select (between_time_mask sel peak_start peak_end) css)) 2))"
    using metrics_step_eq [of ?f ?s2 css sum64] g i by (simp add: between_time_mask_def)
  obtain s3 where m': "metrics_step sum64 ?s2 ?f =
      (s3, Inr (fstring (py_round (series_mean sum64 css) 2),
           fstring (py_round (series_mean sum64
              (select (between_time_mask sel peak_start peak_end) css)) 2)))"
    using m by (cases "metrics_step sum64 ?s2 ?f") auto
  show ?thesis
    unfolding script_with_parameters [OF assms(1)] assms(2) by (simp add: f c m')
qed

text \<open>Float64 values that are met on the small frame.\<close>

lemma f64_whole:
  "f64 0 = 0" "f64 (- 26) = - 26" "f64 (- 46) = - 46" "f64 (- 72) = - 72"
  "f64 (- 36) = - 36" "f64 (- 3600) = - 3600" "f64 (- 2600) = - 2600"
  "f64 (- 4600) = - 4600"
  using f64_of_int [of 0] f64_of_int [of "- 26"] f64_of_int [of "- 46"] f64_of_int [of "- 72"]
    f64_of_int [of "- 36"] f64_of_int [of "- 3600"] f64_of_int [of "- 2600"]
    f64_of_int [of "- 4600"]
  by simp_all

lemma f64_parts:
  "f64 (1 / 8) = 1 / 8" "f64 (1 / 4) = 1 / 4" "f64 (3 / 8) = 3 / 8" "f64 (25 / 2) = 25 / 2"
  "f64 25 = 25"
  using f64_dyadic [of 1 3] f64_dyadic [of 1 2] f64_dyadic [of 3 3] f64_dyadic [of 25 1]
    f64_of_int [of 25]
  by simp_all

lemma shown_means:
  "fstring (py_round (series_mean sum_left [Num (- 26), NaN, Num (- 46)]) 2) = Shown_number (- 36)"
  "fstring (py_round (series_mean sum_left [Num (- 26), NaN]) 2) = Shown_number (- 26)"
  "fstring (py_round (series_mean sum_left [Num (- 46)]) 2) = Shown_number (- 46)"
  "fstring (py_round (series_mean sum_left []) 2) = Shown_text ''nan''"
  "fstring (py_round (series_mean sum_left [Num (1 / 8), Num (1 / 4), NaN, Num 0]) 2)
     = Shown_number (f64 (12 / 100))"
  "fstring (py_round (series_mean sum_left [Num (1 / 4), NaN]) 2) = Shown_number (1 / 4)"
  by (simp_all add: series_mean_def sum_left_def py_round_def fstring_def f64_whole f64_parts
      rint_def Let_def)

lemma example_dates [simp]:
  "dates example_df = [(2025, 3, 31), (2025, 4, 1), (2025, 4, 2), (2025, 4, 4)]"
  by (simp add: example_df_def dates_def date_of_def)

lemma example_wf: "wf_df example_df"
  by (simp add: example_df_def wf_df_def)

lemma example_min_max:
  "min_date example_df = Inr (2025, 4, 1)" "max_date example_df = Inr (2025, 4, 4)"
  by (simp_all add: min_date_def max_date_def py_min_def py_max_def floor_date_def
      min_def max_def)

lemma select_dates_example_default:
  "select_dates example_df None = Inr ((2025, 4, 1), (2025, 4, 4))"
  using select_dates_bounds(1) [OF example_min_max] by simp

lemma select_dates_example_picked:
  assumes "(2025, 4, 1) \<le> a" "a \<le> (2025, 4, 4)" "(2025, 4, 1) \<le> b" "b \<le> (2025, 4, 4)"
  shows "select_dates example_df (Some [a, b]) = Inr (a, b)"
  using assms
  by (simp add: select_dates_def example_min_max date_input_def unpack2_def)

lemma date_filter_example_default:
  "date_filter example_df (2025, 4, 1) (2025, 4, 4) =
     Inr \<lparr>index = [Timestamp 2025 4 1 8 0 0 0, Timestamp 2025 4 2 20 0 0 0,
                    Timestamp 2025 4 4 20 0 0 1],
          columns = [(''FR'', [Num 100, Num 90, Num 80]),
                     (''TTF'', [Num 30, NaN, Num 30]),
                     (''EUA Prices'', [Num 80, Num 80, Num 80])]\<rparr>"
  by (simp add: date_filter_def getitem_mask_def date_mask_def)
     (simp add: example_df_def)

theorem date_filter_keeps_range_witness:
  "wf_df example_df \<and> index example_df \<noteq> []
   \<and> date_filter example_df (2025, 4, 1) (2025, 4, 4) =
       Inr \<lparr>index = [Timestamp 2025 4 1 8 0 0 0, Timestamp 2025 4 2 20 0 0 0,
                      Timestamp 2025 4 4 20 0 0 1],
            columns = [(''FR'', [Num 100, Num 90, Num 80]),
                       (''TTF'', [Num 30, NaN, Num 30]),
                       (''EUA Prices'', [Num 80, Num 80, Num 80])]\<rparr>
   \<and> min_date example_df = Inr (2025, 4, 1)
   \<and> max_date example_df = Inr (2025, 4, 4)
   \<and> select_dates example_df None = Inr ((2025, 4, 1), (2025, 4, 4))
   \<and> select_dates example_df (Some [(2025, 4, 2), (2025, 4, 3)]) = Inr ((2025, 4, 2), (2025, 4, 3))
   \<and> select_dates example_df (Some [(2025, 3, 31), (2025, 4, 4)]) = Inl StreamlitAPIException
   \<and> select_dates example_early_df None = Inl StreamlitAPIException"
proof -
  have ne: "index example_df \<noteq> []" by (simp add: example_df_def)
  have inside: "select_dates example_df (Some [(2025, 4, 2), (2025, 4, 3)])
                  = Inr ((2025, 4, 2), (2025, 4, 3))"
    by (rule select_dates_example_picked) simp_all
  have outside: "select_dates example_df (Some [(2025, 3, 31), (2025, 4, 4)])
                  = Inl StreamlitAPIException"
    by (simp add: select_dates_def example_min_max date_input_def)
  have early: "min_date example_early_df = Inr (2025, 4, 1)"
    "max_date example_early_df = Inr (2025, 3, 31)"
    by (simp_all add: example_early_df_def min_date_def max_date_def py_min_def py_max_def
        dates_def date_of_def floor_date_def min_def max_def)
  have raised: "select_dates example_early_df None = Inl StreamlitAPIException"
    using select_dates_bounds(1) [OF early] by simp
  from date_filter_keeps_range [OF example_wf, of "(2025, 4, 1)" "(2025, 4, 4)"]
    example_wf ne example_min_max date_filter_example_default select_dates_example_default
    inside outside raised
  show ?thesis by blast
qed

theorem date_filter_idempotent_witness:
  "wf_df example_df
   \<and> date_filter example_df (2025, 3, 1) (2025, 4, 3) = Inr example_df_filtered
   \<and> index example_df_filtered \<noteq> []
   \<and> py_min (dates example_df_filtered) = Inr (2025, 3, 31)
   \<and> py_max (dates example_df_filtered) = Inr (2025, 4, 2)
   \<and> date_filter example_df_filtered (2025, 3, 31) (2025, 4, 2) = Inr example_df_filtered
   \<and> date_filter example_df_filtered (2025, 3, 1) (2025, 4, 3) = Inr example_df_filtered"
proof -
  have f: "date_filter example_df (2025, 3, 1) (2025, 4, 3) = Inr example_df_filtered"
    by (simp add: date_filter_def getitem_mask_def date_mask_def)
       (simp add: example_df_def example_df_filtered_def)
  have ne: "index example_df_filtered \<noteq> []" by (simp add: example_df_filtered_def)
  have ds: "dates example_df_filtered = [(2025, 3, 31), (2025, 4, 1), (2025, 4, 2)]"
    by (simp add: example_df_filtered_def dates_def date_of_def)
  have mm: "py_min (dates example_df_filtered) = Inr (2025, 3, 31)"
    "py_max (dates example_df_filtered) = Inr (2025, 4, 2)"
    unfolding ds by (simp_all add: py_min_def py_max_def min_def max_def)
  from date_filter_idempotent [OF example_wf f] example_wf f ne mm
  show ?thesis by auto
qed



theorem empty_selection_shows_nan_witness:
  "0 < length [example_empty_df]
   \<and> wf_df ([example_empty_df] ! 0)
   \<and> getitem ([example_empty_df] ! 0) ''CSS'' = Inr []
   \<and> index (between_time ([example_empty_df] ! 0) peak_start peak_end) = []
   \<and> index ([example_empty_df] ! 0) = []
   \<and> snd (metrics_step sum_left [example_empty_df] 0)
       = Inr (Shown_text ''nan'', Shown_text ''nan'')"
proof -
  have wf: "wf_df ([example_empty_df] ! 0)"
    by (simp add: example_empty_df_def wf_df_def)
  have g: "getitem ([example_empty_df] ! 0) ''CSS'' = Inr []"
    by (simp add: example_empty_df_def getitem_def)
  have i: "index ([example_empty_df] ! 0) = []"
    by (simp add: example_empty_df_def)
  have b: "index (between_time ([example_empty_df] ! 0) peak_start peak_end) = []"
    by (simp add: example_empty_df_def between_time_def between_time_mask_def)
  from empty_selection_shows_nan [of 0 "[example_empty_df]", OF _ wf g, of sum_left] wf g i b
  show ?thesis by simp
qed

text \<open>
  C3, as stated, fails. The small frame has a row on 2025-04-04 at one microsecond past
  20:00 and no row on 2025-04-03. With the range 2025-04-04 to 2025-04-04 picked, the peak
  window selects nothing and the page shows \<open>nan\<close> as the peak average; with the
  range 2025-04-03 to 2025-04-03 the filtered frame is empty and both averages are shown
  as \<open>nan\<close>. No "no data" text is produced.
\<close>

theorem no_data_counterexample:
  "snd (script sum_left [example_df] 0
          (example_widgets\<lparr>w_dates := Some [(2025, 4, 4), (2025, 4, 4)]\<rparr>))
     = Inr \<lparr>shown_avg_css = Shown_number (- 46), shown_peak_css = Shown_text ''nan'',
            df_filtered_ref = 2\<rparr>
   \<and> snd (script sum_left [example_df] 0
          (example_widgets\<lparr>w_dates := Some [(2025, 4, 3), (2025, 4, 3)]\<rparr>))
     = Inr \<lparr>shown_avg_css = Shown_text ''nan'', shown_peak_css = Shown_text ''nan'',
            df_filtered_ref = 2\<rparr>
   \<and> Shown_text ''nan'' \<noteq> Shown_text ''no data''"
proof -
  let ?one = "\<lparr>index = [Timestamp 2025 4 4 20 0 0 1],
             columns = [(''FR'', [Num 80]), (''TTF'', [Num 30]), (''EUA Prices'', [Num 80])]\<rparr>"
  let ?none = "\<lparr>index = [],
             columns = [(''FR'', []), (''TTF'', []), (''EUA Prices'', [])]\<rparr>"
  let ?w1 = "example_widgets\<lparr>w_dates := Some [(2025, 4, 4), (2025, 4, 4)]\<rparr>"
  let ?w2 = "example_widgets\<lparr>w_dates := Some [(2025, 4, 3), (2025, 4, 3)]\<rparr>"
  let ?par = "\<lparr>p_country = ''FR'', p_gas_index = ''TTF'', p_efficiency = 3 / 10,
          p_emission_factor_th = 0.09, p_variable_cost = 2\<rparr>"
  have s1: "select_dates ([example_df] ! 0) (w_dates ?w1) = Inr ((2025, 4, 4), (2025, 4, 4))"
    and s2: "select_dates ([example_df] ! 0) (w_dates ?w2) = Inr ((2025, 4, 3), (2025, 4, 3))"
    by (simp_all add: select_dates_example_picked)
  have f1: "date_filter ([example_df] ! 0) (2025, 4, 4) (2025, 4, 4) = Inr ?one"
    by (simp add: date_filter_def getitem_mask_def date_mask_def) (simp add: example_df_def)
  have f2: "date_filter ([example_df] ! 0) (2025, 4, 3) (2025, 4, 3) = Inr ?none"
    by (simp add: date_filter_def getitem_mask_def date_mask_def) (simp add: example_df_def)
  have c1: "calc_css ?one (p_country ?par) (p_gas_index ?par) (p_efficiency ?par)
              (p_emission_factor_th ?par) (p_variable_cost ?par) = Inr [Num (- 46)]"
    by (simp add: calc_defs)
  have c2: "calc_css ?none (p_country ?par) (p_gas_index ?par) (p_efficiency ?par)
              (p_emission_factor_th ?par) (p_variable_cost ?par) = Inr []"
    by (simp add: calc_defs)
  have p1: "select (between_time_mask ?one peak_start peak_end) [Num (- 46)] = []"
    by (simp add: peak_mask_eq get_time_micros_def)
  have p2: "select (between_time_mask ?none peak_start peak_end) [] = []"
    by simp
  have two: "Suc (length [example_df]) = 2" by simp
  note e1 = script_eval [OF example_parameters s1 f1 c1, of sum_left, unfolded p1 shown_means two]
  note e2 = script_eval [OF example_parameters s2 f2 c2, of sum_left, unfolded p2 shown_means two]
  from e1 e2 show ?thesis by simp
qed

theorem script_keeps_loaded_frame_witness:
  "0 < length [example_df]
   \<and> fst (script sum_left [example_df] 0 example_widgets) ! 0 = example_df
   \<and> snd (script sum_left [example_df] 0 example_widgets)
       = Inr \<lparr>shown_avg_css = Shown_number (- 36), shown_peak_css = Shown_number (- 26),
              df_filtered_ref = 2\<rparr>"
proof -
  let ?sel = "\<lparr>index = [Timestamp 2025 4 1 8 0 0 0, Timestamp 2025 4 2 20 0 0 0,
                    Timestamp 2025 4 4 20 0 0 1],
          columns = [(''FR'', [Num 100, Num 90, Num 80]),
                     (''TTF'', [Num 30, NaN, Num 30]),
                     (''EUA Prices'', [Num 80, Num 80, Num 80])]\<rparr>"
  let ?par = "\<lparr>p_country = ''FR'', p_gas_index = ''TTF'', p_efficiency = 3 / 10,
          p_emission_factor_th = 0.09, p_variable_cost = 2\<rparr>"
  have w: "example_widgets\<lparr>w_dates := None\<rparr> = example_widgets"
    by (simp add: example_widgets_def)
  note par = example_parameters [of None, unfolded w]
  have s: "select_dates ([example_df] ! 0) (w_dates example_widgets)
             = Inr ((2025, 4, 1), (2025, 4, 4))"
    by (simp add: example_widgets_def select_dates_example_default)
  have f: "date_filter ([example_df] ! 0) (2025, 4, 1) (2025, 4, 4) = Inr ?sel"
    using date_filter_example_default by simp
  have c: "calc_css ?sel (p_country ?par) (p_gas_index ?par) (p_efficiency ?par)
              (p_emission_factor_th ?par) (p_variable_cost ?par)
             = Inr [Num (- 26), NaN, Num (- 46)]"
    by (simp add: calc_defs)
  have p: "select (between_time_mask ?sel peak_start peak_end) [Num (- 26), NaN, Num (- 46)]
           = [Num (- 26), NaN]"
    by (simp add: peak_mask_eq get_time_micros_def)
  have two: "Suc (length [example_df]) = 2" by simp
  note e = script_eval [OF par s f c, of sum_left, unfolded p shown_means two]
  from script_keeps_loaded_frame [of 0 "[example_df]" sum_left example_widgets] e
  show ?thesis by simp
qed

end
